theory Spec2Isabelle
  imports Main
begin

section \<open>Python strings\<close>

text \<open>
  A Python \<open>str\<close> is modelled as a \<open>string\<close>, one \<open>char\<close> per code point: the
  embedding covers the code points below 256. There \<open>str.isspace\<close>, \<open>str.strip\<close> and
  the regular-expression class \<open>\s\<close> agree on the twelve characters below, among them
  U+0085 and U+00A0, and \<open>\d\<close> is \<open>0\<close> to \<open>9\<close>. The case functions of the model change
  the 26 letters only. The comparisons of the two files are all with ASCII words, and
  below 256 that is all they depend on: \<open>lower\<close> yields an ASCII letter for an ASCII
  letter only, \<open>upper\<close> does so too but for U+00DF, whose \<open>SS\<close> starts and continues
  none of \<open>SELECT\<close>, \<open>SHOW\<close> and \<open>DESCRIBE\<close>, and \<open>re.IGNORECASE\<close> matches an ASCII
  letter against its two cases only.
\<close>

definition is_space :: "char \<Rightarrow> bool" where
  "is_space c = (c \<in> set [CHR 0x09, CHR 0x0A, CHR 0x0B, CHR 0x0C, CHR 0x0D,
                            CHR 0x1C, CHR 0x1D, CHR 0x1E, CHR 0x1F, CHR '' '',
                            CHR 0x85, CHR 0xA0])"

definition digits :: string where
  "digits = ''0123456789''"

definition is_digit :: "char \<Rightarrow> bool" where
  "is_digit c = (c \<in> set digits)"

definition ascii_lowercase :: string where
  "ascii_lowercase = ''abcdefghijklmnopqrstuvwxyz''"

definition ascii_uppercase :: string where
  "ascii_uppercase = ''ABCDEFGHIJKLMNOPQRSTUVWXYZ''"

definition lower_char :: "char \<Rightarrow> char" where
  "lower_char c = (case map_of (zip ascii_uppercase ascii_lowercase) c of
                     Some d \<Rightarrow> d | None \<Rightarrow> c)"

definition upper_char :: "char \<Rightarrow> char" where
  "upper_char c = (case map_of (zip ascii_lowercase ascii_uppercase) c of
                     Some d \<Rightarrow> d | None \<Rightarrow> c)"

text \<open>\<open>s.lower()\<close> and \<open>s.upper()\<close>.\<close>

definition lower :: "string \<Rightarrow> string" where
  "lower s = map lower_char s"

definition upper :: "string \<Rightarrow> string" where
  "upper s = map upper_char s"

text \<open>\<open>s.startswith(p)\<close>.\<close>

fun startswith :: "string \<Rightarrow> string \<Rightarrow> bool" where
  "startswith s [] = True"
| "startswith [] (p # ps) = False"
| "startswith (c # cs) (p # ps) = (c = p \<and> startswith cs ps)"

text \<open>\<open>sub in s\<close>: the substring test.\<close>

fun contains :: "string \<Rightarrow> string \<Rightarrow> bool" where
  "contains [] sub = startswith [] sub"
| "contains (c # cs) sub = (startswith (c # cs) sub \<or> contains cs sub)"

text \<open>\<open>s.lstrip()\<close>, \<open>s.rstrip()\<close>, \<open>s.strip()\<close> and \<open>s.rstrip(";")\<close>.\<close>

definition lstrip :: "string \<Rightarrow> string" where
  "lstrip s = dropWhile is_space s"

definition rstrip :: "string \<Rightarrow> string" where
  "rstrip s = rev (dropWhile is_space (rev s))"

definition strip :: "string \<Rightarrow> string" where
  "strip s = rstrip (lstrip s)"

definition rstrip_semicolons :: "string \<Rightarrow> string" where
  "rstrip_semicolons s = rev (dropWhile (\<lambda>c. c = CHR '';'') (rev s))"

text \<open>The number that a run of ASCII digits denotes, most significant first.\<close>

definition digit_value :: "char \<Rightarrow> int" where
  "digit_value c = (case map_of (zip digits [0, 1, 2, 3, 4, 5, 6, 7, 8, 9]) c of
                      Some v \<Rightarrow> v | None \<Rightarrow> 0)"

definition decimal_value :: "string \<Rightarrow> int" where
  "decimal_value d = foldl (\<lambda>a c. 10 * a + digit_value c) 0 d"

section \<open>The regular expressions of the two pipelines\<close>

text \<open>
  \<open>re.search\<close> tries the start positions from left to right and returns the first
  match. \<open>search_from m s\<close> does that for a matcher \<open>m\<close> that is given the text
  from a start position on and returns what the match yields there.
\<close>

fun search_from :: "(string \<Rightarrow> 'a option) \<Rightarrow> string \<Rightarrow> 'a option" where
  "search_from m [] = m []"
| "search_from m (c # cs) =
     (case m (c # cs) of Some r \<Rightarrow> Some r | None \<Rightarrow> search_from m cs)"

subsection \<open>\<open>(?:limit|top|first|show only)\s*(\d+)\<close>\<close>

definition limit_keywords :: "string list" where
  "limit_keywords = [''limit'', ''top'', ''first'', ''show only'']"

text \<open>
  The alternation: the alternatives are tried in order; they start with four different
  letters, so at most one of them matches at a position and the order decides nothing.
  The result is the text after the keyword.
\<close>

fun after_keyword :: "string list \<Rightarrow> string \<Rightarrow> string option" where
  "after_keyword [] s = None"
| "after_keyword (k # ks) s =
     (if startswith s k then Some (drop (length k) s) else after_keyword ks s)"

text \<open>
  The match at one position, yielding group 1. \<open>\s*\<close> and \<open>\d+\<close> are greedy and the
  two classes are disjoint, so giving back whitespace or digits never turns a failure
  into a match: the group is the whole run of digits after the whole run of whitespace.
\<close>

definition limit_match_at :: "string \<Rightarrow> string option" where
  "limit_match_at s =
     (case after_keyword limit_keywords s of
        None \<Rightarrow> None
      | Some r \<Rightarrow>
          (let d = takeWhile is_digit (dropWhile is_space r)
           in if d = [] then None else Some d))"

definition limit_search :: "string \<Rightarrow> string option" where
  "limit_search s = search_from limit_match_at s"

subsection \<open>\<open>```sql\s*(.*?)\s*```\<close> with \<open>re.DOTALL\<close>\<close>

text \<open>
  The lazy group followed by \<open>\s*```\<close>: the group grows one character at a time until
  the rest is whitespace followed by the closing marker. The result is the group.
\<close>

fun fence_close :: "string \<Rightarrow> string option" where
  "fence_close [] = None"
| "fence_close (c # cs) =
     (if startswith (dropWhile is_space (c # cs)) ''```'' then Some []
      else map_option ((#) c) (fence_close cs))"

text \<open>
  After the opening marker \<open>\s*\<close> takes all the whitespace: the closing marker is found
  from a later position exactly when it is found from an earlier one, so giving
  whitespace back to the group never helps.
\<close>

definition fence_match_at :: "string \<Rightarrow> string option" where
  "fence_match_at s =
     (if startswith s ''```sql'' then fence_close (dropWhile is_space (drop 6 s))
      else None)"

definition fence_search :: "string \<Rightarrow> string option" where
  "fence_search s = search_from fence_match_at s"

subsection \<open>\<open>\s*LIMIT\s+\d+\<close> with \<open>re.IGNORECASE\<close>\<close>

text \<open>The match at one position, yielding the text after the match.\<close>

definition limit_clause_at :: "string \<Rightarrow> string option" where
  "limit_clause_at s =
     (let r = dropWhile is_space s
      in if startswith (upper r) ''LIMIT'' then
           (let r1 = drop 5 r; r2 = dropWhile is_space r1
            in if takeWhile is_space r1 \<noteq> [] \<and> takeWhile is_digit r2 \<noteq> []
               then Some (dropWhile is_digit r2) else None)
         else None)"

lemma limit_clause_at_shorter:
  "limit_clause_at s = Some r \<Longrightarrow> length r < length s"
proof -
  assume a: "limit_clause_at s = Some r"
  define r0 where "r0 = dropWhile is_space s"
  define r2 where "r2 = dropWhile is_space (drop 5 r0)"
  from a have r: "r = dropWhile is_digit r2" and d: "takeWhile is_digit r2 \<noteq> []"
    by (auto simp: limit_clause_at_def Let_def r0_def r2_def split: if_splits)
  have "length (takeWhile is_digit r2) + length r = length r2"
    unfolding r length_append [symmetric] by simp
  with d have "length r < length r2"
    by (cases "takeWhile is_digit r2") auto
  also have "length r2 \<le> length (drop 5 r0)"
    unfolding r2_def by (rule length_dropWhile_le)
  also have "\<dots> \<le> length r0" by simp
  also have "\<dots> \<le> length s" unfolding r0_def by (rule length_dropWhile_le)
  finally show ?thesis .
qed

text \<open>
  \<open>re.sub(pattern, '', s, flags=re.IGNORECASE)\<close>: one pass from left to right; where the
  pattern matches the match is dropped and the scan goes on after it, elsewhere the
  character is kept.
\<close>

function limit_sub :: "string \<Rightarrow> string" where
  "limit_sub [] = []"
| "limit_sub (c # cs) =
     (case limit_clause_at (c # cs) of
        Some r \<Rightarrow> limit_sub r
      | None \<Rightarrow> c # limit_sub cs)"
  by pat_completeness auto
termination
  by (relation "measure length") (auto dest: limit_clause_at_shorter)

subsection \<open>\<open>```(?:sql)?\s*(SELECT.*?)\s*```\<close> with \<open>re.I | re.S\<close>\<close>

text \<open>
  The match at one position, yielding group 1. The optional \<open>sql\<close> is taken when it is
  there: without it the next thing to match would be \<open>SELECT\<close> against text that starts
  with \<open>sq\<close>. The group is \<open>SELECT\<close> as the text spells it, followed by the lazy part.
\<close>

definition block_match_at :: "string \<Rightarrow> string option" where
  "block_match_at s =
     (if startswith s ''```'' then
        (let r0 = drop 3 s;
             r1 = (if startswith (lower r0) ''sql'' then drop 3 r0 else r0);
             r2 = dropWhile is_space r1
         in if startswith (upper r2) ''SELECT''
            then map_option (\<lambda>g. take 6 r2 @ g) (fence_close (drop 6 r2))
            else None)
      else None)"

subsection \<open>\<open>(SELECT.*?;)\<close> with \<open>re.I | re.S\<close>\<close>

definition select_semicolon_at :: "string \<Rightarrow> string option" where
  "select_semicolon_at s =
     (if startswith (upper s) ''SELECT'' then
        (let r = drop 6 s
         in if CHR '';'' \<in> set r
            then Some (take 6 s @ takeWhile (\<lambda>c. c \<noteq> CHR '';'') r @ '';'')
            else None)
      else None)"

section \<open>Values, exceptions and collaborators\<close>

text \<open>
  What \<open>request.get_json()\<close> can return: a parsed JSON value (numbers that are not
  integers are left out). An object is its list of members, looked up with \<open>map_of\<close>.
\<close>

datatype json =
    JNull
  | JBool bool
  | JInt int
  | JStr string
  | JList "json list"
  | JObj "(string \<times> json) list"

text \<open>
  An exception is its class and \<open>str(e)\<close>. Only the classes that some \<open>except\<close>
  clause of the two files tells apart have a constructor of their own; every exception
  of the model is an \<open>Exception\<close>.
\<close>

datatype exn_kind = KeyError | ValueError | SyntaxError | TypeError | AttributeError | OtherError

datatype exn = Exn (kind: exn_kind) (message: string)

text \<open>
  What \<open>ast.literal_eval\<close> can return. A float or complex literal is kept as its
  text.
\<close>

datatype pyval =
    PNone
  | PBool bool
  | PInt int
  | PFloat string
  | PComplex string
  | PStr string
  | PBytes string
  | PList "pyval list"
  | PTuple "pyval list"
  | PSet "pyval list"
  | PDict "(pyval \<times> pyval) list"

text \<open>
  \<open>int(d)\<close> on a run of ASCII digits. The interpreter refuses a decimal string with
  more digits than \<open>sys.get_int_max_str_digits()\<close>, leading zeros counted, and raises
  \<open>ValueError\<close>; the limit is 4300 unless it is set otherwise, and 0 stands for no
  limit (as in an interpreter without one). \<open>str_nat\<close> prints the two numbers of the
  message.
\<close>

function str_nat :: "nat \<Rightarrow> string" where
  "str_nat n = (if n < 10 then [digits ! n] else str_nat (n div 10) @ [digits ! (n mod 10)])"
  by pat_completeness auto
termination
  by (relation "measure id") auto

declare str_nat.simps [simp del]

definition py_int :: "nat \<Rightarrow> string \<Rightarrow> exn + int" where
  "py_int max_str_digits d =
     (if 0 < max_str_digits \<and> max_str_digits < length d
      then Inl (Exn ValueError
                  (''Exceeds the limit ('' @ str_nat max_str_digits
                   @ '' digits) for integer string conversion: value has ''
                   @ str_nat (length d)
                   @ '' digits; use sys.set_int_max_str_digits() to increase the limit''))
      else Inr (decimal_value d))"

text \<open>The keyword arguments of the two chain invocations.\<close>

record gen_args =
  gen_input :: string
  gen_top_k :: int
  gen_table_info :: string
  gen_question :: string

record desc_args =
  desc_sql_query :: string
  desc_query_results :: string
  desc_original_question :: string

text \<open>
  The surroundings of a request: the interpreter's limit on decimal strings, and the
  collaborators: the schema reader, the two chains, the database executor, and the two
  library functions applied to the executor's result. Each call either raises or
  returns.
\<close>

record env =
  int_max_str_digits :: nat
  get_table_info :: "exn + string"
  sql_query_chain_invoke :: "gen_args \<Rightarrow> exn + string"
  db_run :: "string \<Rightarrow> exn + string"
  literal_eval :: "string \<Rightarrow> exn + pyval"
  py_str :: "pyval \<Rightarrow> string"
  result_description_chain_invoke :: "desc_args \<Rightarrow> exn + string"

text \<open>The calls a request makes to its collaborators, in order, each with its outcome.\<close>

datatype event =
    GetTableInfo "exn + string"
  | Generate gen_args "exn + string"
  | DbRun string "exn + string"
  | Describe desc_args "exn + string"

text \<open>\<open>jsonify(...), status\<close>: the members of the JSON body and the HTTP status.\<close>

record response =
  body :: "(string \<times> string) list"
  status_code :: nat

section \<open>The request guard\<close>

text \<open>\<open>not data\<close>.\<close>

fun falsy :: "json \<Rightarrow> bool" where
  "falsy JNull = True"
| "falsy (JBool b) = (\<not> b)"
| "falsy (JInt n) = (n = 0)"
| "falsy (JStr s) = (s = [])"
| "falsy (JList xs) = (xs = [])"
| "falsy (JObj kvs) = (kvs = [])"

fun type_name :: "json \<Rightarrow> string" where
  "type_name JNull = ''NoneType''"
| "type_name (JBool b) = ''bool''"
| "type_name (JInt n) = ''int''"
| "type_name (JStr s) = ''str''"
| "type_name (JList xs) = ''list''"
| "type_name (JObj kvs) = ''dict''"

text \<open>\<open>'prompt' in data\<close>: key of a dict, element of a list, substring of a string.\<close>

fun prompt_in :: "json \<Rightarrow> exn + bool" where
  "prompt_in (JObj kvs) = Inr (map_of kvs ''prompt'' \<noteq> None)"
| "prompt_in (JList xs) = Inr (JStr ''prompt'' \<in> set xs)"
| "prompt_in (JStr s) = Inr (contains s ''prompt'')"
| "prompt_in v = Inl (Exn TypeError (''argument of type '' @ [CHR 0x27] @ type_name v
                                     @ [CHR 0x27] @ '' is not iterable''))"

text \<open>\<open>data['prompt']\<close>.\<close>

fun get_prompt :: "json \<Rightarrow> exn + json" where
  "get_prompt (JObj kvs) =
     (case map_of kvs ''prompt'' of
        Some v \<Rightarrow> Inr v
      | None \<Rightarrow> Inl (Exn KeyError ([CHR 0x27] @ ''prompt'' @ [CHR 0x27])))"
| "get_prompt (JList xs) = Inl (Exn TypeError ''list indices must be integers or slices, not str'')"
| "get_prompt (JStr s) = Inl (Exn TypeError ''string indices must be integers'')"
| "get_prompt v = Inl (Exn TypeError ([CHR 0x27] @ type_name v @ [CHR 0x27]
                                      @ '' object is not subscriptable''))"

definition unexpected_error :: "exn \<Rightarrow> response" where
  "unexpected_error e =
     \<lparr>body = [(''error'', ''Unexpected error: '' @ message e)], status_code = 500\<rparr>"

text \<open>
  The dict literal handed to \<open>sql_query_chain.invoke\<close> is built first, so
  \<open>db.get_table_info()\<close> runs, and may raise, before the chain does. Both files build
  the same four entries.
\<close>

definition generate :: "env \<Rightarrow> string \<Rightarrow> int \<Rightarrow> (exn + string) \<times> event list" where
  "generate env nl_question top_k =
     (case get_table_info env of
        Inl e \<Rightarrow> (Inl e, [GetTableInfo (Inl e)])
      | Inr info \<Rightarrow>
          (let args = \<lparr>gen_input = nl_question, gen_top_k = top_k,
                       gen_table_info = info, gen_question = nl_question\<rparr>;
               out = sql_query_chain_invoke env args
           in (out, [GetTableInfo (Inr info), Generate args out])))"

fun py_type_name :: "pyval \<Rightarrow> string" where
  "py_type_name PNone = ''NoneType''"
| "py_type_name (PBool b) = ''bool''"
| "py_type_name (PInt n) = ''int''"
| "py_type_name (PFloat x) = ''float''"
| "py_type_name (PComplex x) = ''complex''"
| "py_type_name (PStr s) = ''str''"
| "py_type_name (PBytes s) = ''bytes''"
| "py_type_name (PList xs) = ''list''"
| "py_type_name (PTuple xs) = ''tuple''"
| "py_type_name (PSet xs) = ''set''"
| "py_type_name (PDict kvs) = ''dict''"

text \<open>
  \<open>rows[:5]\<close>: the first five items of a sequence. Anything else cannot be sliced; the
  exception is a \<open>TypeError\<close> (for a dict, a \<open>KeyError\<close> in interpreters where a
  slice is hashable), never a \<open>ValueError\<close> or a \<open>SyntaxError\<close>.
\<close>

fun slice5 :: "pyval \<Rightarrow> exn + pyval" where
  "slice5 (PStr s) = Inr (PStr (take 5 s))"
| "slice5 (PBytes s) = Inr (PBytes (take 5 s))"
| "slice5 (PList xs) = Inr (PList (take 5 xs))"
| "slice5 (PTuple xs) = Inr (PTuple (take 5 xs))"
| "slice5 (PDict kvs) = Inl (Exn TypeError (''unhashable type: '' @ [CHR 0x27] @ ''slice'' @ [CHR 0x27]))"
| "slice5 v = Inl (Exn TypeError ([CHR 0x27] @ py_type_name v @ [CHR 0x27]
                                  @ '' object is not subscriptable''))"

section \<open>The OpenAI pipeline (app.py)\<close>

text \<open>
  The \<open>for ... else\<close> over \<open>limit_keywords\<close>: \<open>top_k\<close>, \<open>None\<close> when no keyword is
  found, or the \<open>ValueError\<close> of \<open>int\<close>.
\<close>

definition requests_limit :: "string \<Rightarrow> bool" where
  "requests_limit nl_question = list_ex (contains (lower nl_question)) limit_keywords"

definition extract_top_k :: "nat \<Rightarrow> string \<Rightarrow> exn + int option" where
  "extract_top_k max_str_digits nl_question =
     (if requests_limit nl_question then
        (case limit_search (lower nl_question) of
           Some d \<Rightarrow> map_sum id Some (py_int max_str_digits d)
         | None \<Rightarrow> Inr (Some 10))
      else Inr None)"

text \<open>Lines 129 to 141: the cleaned \<open>sql_query\<close>.\<close>

definition clean_sql :: "string \<Rightarrow> string" where
  "clean_sql generated_query =
     (case fence_search generated_query of
        Some g \<Rightarrow> strip g
      | None \<Rightarrow>
          (let sql_query = strip generated_query;
               sql_query = (if startswith sql_query ''SQLQuery:''
                            then strip (drop (length ''SQLQuery:'') sql_query)
                            else sql_query)
           in strip (rstrip_semicolons sql_query)))"

definition likely_sql :: "string \<Rightarrow> bool" where
  "likely_sql sql_query =
     list_ex (startswith (upper sql_query)) [''SELECT'', ''SHOW'', ''DESCRIBE'']"

text \<open>
  Lines 170 to 176: \<open>results_summary\<close>, or the exception that leaves the inner
  \<open>try\<close> because it is neither a \<open>ValueError\<close> nor a \<open>SyntaxError\<close>.
\<close>

definition parse_rows :: "env \<Rightarrow> string \<Rightarrow> exn + string" where
  "parse_rows env query_results =
     (case (if query_results \<noteq> [] then literal_eval env query_results else Inr (PList [])) of
        Inl e \<Rightarrow> Inl e
      | Inr results_list \<Rightarrow>
          (case slice5 results_list of
             Inl e \<Rightarrow> Inl e
           | Inr rows \<Rightarrow> Inr (py_str env rows)))"

definition summarize :: "env \<Rightarrow> string \<Rightarrow> exn + string" where
  "summarize env query_results =
     (case parse_rows env query_results of
        Inr results_summary \<Rightarrow> Inr results_summary
      | Inl e \<Rightarrow>
          if kind e = ValueError \<or> kind e = SyntaxError
          then Inr (if query_results \<noteq> [] then query_results else ''No results returned.'')
          else Inl e)"

text \<open>Lines 168 to 198: from the executor's result to the response.\<close>

definition describe :: "env \<Rightarrow> string \<Rightarrow> string \<Rightarrow> string \<Rightarrow> string \<Rightarrow> response \<times> event list" where
  "describe env nl_question generated_query sql_query query_results =
     (case summarize env query_results of
        Inl e \<Rightarrow> (unexpected_error e, [])
      | Inr results_summary \<Rightarrow>
          (let args = \<lparr>desc_sql_query = sql_query, desc_query_results = results_summary,
                       desc_original_question = nl_question\<rparr>;
               out = result_description_chain_invoke env args;
               description = (case out of
                                Inr content \<Rightarrow> content
                              | Inl e \<Rightarrow> ''Unable to generate description: '' @ message e)
           in (\<lparr>body = [(''status'', ''success''),
                         (''original_question'', nl_question),
                         (''generated_query'', generated_query),
                         (''sql_query'', sql_query),
                         (''query_results'', query_results),
                         (''description'', description)],
                 status_code = 200\<rparr>,
               [Describe args out])))"

text \<open>Lines 127 to 166: from the generated text to the executor.\<close>

definition execute :: "env \<Rightarrow> string \<Rightarrow> string \<Rightarrow> response \<times> event list" where
  "execute env nl_question generated_query =
     (let sql_query = clean_sql generated_query
      in if \<not> likely_sql sql_query then
           (\<lparr>body = [(''error'', ''Generated query is not valid SQL''),
                      (''generated_query'', generated_query),
                      (''sql_query'', sql_query)],
              status_code = 400\<rparr>, [])
         else
           (let sql_query = (if \<not> requests_limit nl_question then limit_sub sql_query
                             else sql_query);
                out = db_run env sql_query
            in case out of
                 Inl e \<Rightarrow>
                   (\<lparr>body = [(''error'', ''Error executing query: '' @ message e),
                              (''generated_query'', generated_query),
                              (''sql_query'', sql_query)],
                      status_code = 500\<rparr>, [DbRun sql_query out])
               | Inr query_results \<Rightarrow>
                   (let (resp, evs) = describe env nl_question generated_query sql_query
                                        query_results
                    in (resp, DbRun sql_query out # evs))))"

text \<open>Lines 97 to 125: the limit hint and the generation, for a prompt that is a string.\<close>

definition pipeline :: "env \<Rightarrow> string \<Rightarrow> response \<times> event list" where
  "pipeline env nl_question =
     (case extract_top_k (int_max_str_digits env) nl_question of
        Inl e \<Rightarrow> (unexpected_error e, [])
      | Inr top_k \<Rightarrow>
          (let (out, evs) = generate env nl_question
                              (case top_k of Some k \<Rightarrow> k | None \<Rightarrow> 1000)
           in case out of
                Inl e \<Rightarrow>
                  (if kind e = KeyError
                   then \<lparr>body = [(''error'',
                                   ''Error generating query: Missing key '' @ message e)],
                         status_code = 500\<rparr>
                   else unexpected_error e, evs)
              | Inr generated_query \<Rightarrow>
                  (let (resp, evs') = execute env nl_question generated_query
                   in (resp, evs @ evs'))))"

text \<open>
  \<open>handle_query\<close> of app.py. The request is the outcome of \<open>request.get_json()\<close>; a
  prompt that is not a string has no \<open>lower\<close>.
\<close>

definition handle_query :: "env \<Rightarrow> exn + json \<Rightarrow> response \<times> event list" where
  "handle_query env request =
     (case request of
        Inl e \<Rightarrow> (unexpected_error e, [])
      | Inr data \<Rightarrow>
          if falsy data
          then (\<lparr>body = [(''error'', ''Missing 'prompt' in JSON payload'')],
                  status_code = 400\<rparr>, [])
          else
            (case prompt_in data of
               Inl e \<Rightarrow> (unexpected_error e, [])
             | Inr False \<Rightarrow>
                 (\<lparr>body = [(''error'', ''Missing 'prompt' in JSON payload'')],
                    status_code = 400\<rparr>, [])
             | Inr True \<Rightarrow>
                 (case get_prompt data of
                    Inl e \<Rightarrow> (unexpected_error e, [])
                  | Inr (JStr nl_question) \<Rightarrow> pipeline env nl_question
                  | Inr v \<Rightarrow>
                      (unexpected_error
                         (Exn AttributeError
                            ([CHR 0x27] @ type_name v @ [CHR 0x27]
                             @ '' object has no attribute '' @ [CHR 0x27] @ ''lower''
                             @ [CHR 0x27])), []))))"

section \<open>The Ollama pipeline (main.py)\<close>

text \<open>
  \<open>extract_sql\<close>: the fenced block that starts with \<open>SELECT\<close>, else the first
  \<open>SELECT\<close> up to and including the next semicolon, else the text before the first
  semicolon.
\<close>

definition extract_sql :: "string \<Rightarrow> string" where
  "extract_sql text =
     (case search_from block_match_at text of
        Some g \<Rightarrow> strip g
      | None \<Rightarrow>
          (case search_from select_semicolon_at text of
             Some g \<Rightarrow> strip g
           | None \<Rightarrow> strip (takeWhile (\<lambda>c. c \<noteq> CHR '';'') text)))"

text \<open>
  Line 112 calls what \<open>extract_sql\<close> returned. That is a \<open>str\<close>, and calling a \<open>str\<close>
  raises \<open>TypeError\<close> whatever the string and the argument are.
\<close>

definition call_str :: "string \<Rightarrow> string \<Rightarrow> exn + string" where
  "call_str f arg = Inl (Exn TypeError ([CHR 0x27] @ ''str'' @ [CHR 0x27] @ '' object is not callable''))"

text \<open>
  Lines 100 to 103: the search runs on the question itself, with \<open>re.I\<close>; the group
  holds digits only, so it is the group found in the lowered text.
\<close>

definition top_k_main :: "nat \<Rightarrow> string \<Rightarrow> exn + int" where
  "top_k_main max_str_digits nl_question =
     (case limit_search (lower nl_question) of
        Some d \<Rightarrow> py_int max_str_digits d
      | None \<Rightarrow> Inr 1000)"

text \<open>Lines 127 to 131: \<open>except Exception\<close> takes every exception of the \<open>try\<close>.\<close>

definition summarize_main :: "env \<Rightarrow> string \<Rightarrow> string" where
  "summarize_main env results =
     (case literal_eval env results of
        Inl e \<Rightarrow> (if results \<noteq> [] then results else ''[]'')
      | Inr rows \<Rightarrow>
          (case slice5 rows of
             Inl e \<Rightarrow> (if results \<noteq> [] then results else ''[]'')
           | Inr first_rows \<Rightarrow> py_str env first_rows))"

text \<open>Lines 126 to 149: the description is asked for outside any inner \<open>try\<close>.\<close>

definition describe_main :: "env \<Rightarrow> string \<Rightarrow> string \<Rightarrow> string \<Rightarrow> string \<Rightarrow> response \<times> event list" where
  "describe_main env nl_question generated sql_query results =
     (let summary = summarize_main env results;
          args = \<lparr>desc_sql_query = sql_query, desc_query_results = summary,
                  desc_original_question = nl_question\<rparr>;
          out = result_description_chain_invoke env args
      in (case out of
            Inl e \<Rightarrow> unexpected_error e
          | Inr description \<Rightarrow>
              \<lparr>body = [(''status'', ''success''),
                        (''original_question'', nl_question),
                        (''generated_query'', generated),
                        (''sql_query'', sql_query),
                        (''query_results'', results),
                        (''description'', description)],
                status_code = 200\<rparr>,
          [Describe args out]))"

text \<open>Lines 112 to 124.\<close>

definition execute_main :: "env \<Rightarrow> string \<Rightarrow> string \<Rightarrow> response \<times> event list" where
  "execute_main env nl_question generated =
     (case call_str (extract_sql generated) generated of
        Inl e \<Rightarrow> (unexpected_error e, [])
      | Inr sql_query \<Rightarrow>
          if \<not> list_ex (startswith (upper sql_query)) [''SELECT'', ''SHOW'', ''DESCRIBE'']
          then (\<lparr>body = [(''error'', ''Invalid SQL generated''), (''generated'', generated)],
                  status_code = 400\<rparr>, [])
          else
            (let out = db_run env sql_query
             in case out of
                  Inl e \<Rightarrow>
                    (\<lparr>body = [(''error'', ''Error executing query: '' @ message e)],
                       status_code = 500\<rparr>, [DbRun sql_query out])
                | Inr results \<Rightarrow>
                    (let (resp, evs) = describe_main env nl_question generated sql_query results
                     in (resp, DbRun sql_query out # evs))))"

text \<open>Lines 96 to 111.\<close>

definition pipeline_main :: "env \<Rightarrow> string \<Rightarrow> response \<times> event list" where
  "pipeline_main env nl_question =
     (case top_k_main (int_max_str_digits env) nl_question of
        Inl e \<Rightarrow> (unexpected_error e, [])
      | Inr top_k \<Rightarrow>
          (let (out, evs) = generate env nl_question top_k
           in case out of
                Inl e \<Rightarrow> (unexpected_error e, evs)
              | Inr generated \<Rightarrow>
                  (let (resp, evs') = execute_main env nl_question generated
                   in (resp, evs @ evs'))))"

text \<open>
  \<open>handle_query\<close> of main.py. \<open>re.search\<close> refuses a prompt that is not a string.
\<close>

definition handle_query_main :: "env \<Rightarrow> exn + json \<Rightarrow> response \<times> event list" where
  "handle_query_main env request =
     (case request of
        Inl e \<Rightarrow> (unexpected_error e, [])
      | Inr data \<Rightarrow>
          if falsy data
          then (\<lparr>body = [(''error'', ''Missing 'prompt' in JSON'')], status_code = 400\<rparr>, [])
          else
            (case prompt_in data of
               Inl e \<Rightarrow> (unexpected_error e, [])
             | Inr False \<Rightarrow>
                 (\<lparr>body = [(''error'', ''Missing 'prompt' in JSON'')], status_code = 400\<rparr>, [])
             | Inr True \<Rightarrow>
                 (case get_prompt data of
                    Inl e \<Rightarrow> (unexpected_error e, [])
                  | Inr (JStr nl_question) \<Rightarrow> pipeline_main env nl_question
                  | Inr v \<Rightarrow>
                      (unexpected_error
                         (Exn TypeError ''expected string or bytes-like object''), []))))"

section \<open>Reading a response and a run\<close>

definition has_key :: "response \<Rightarrow> string \<Rightarrow> bool" where
  "has_key r k = (map_of (body r) k \<noteq> None)"

text \<open>The success object of app.py, by its five variable parts.\<close>

definition success_response :: "string \<Rightarrow> string \<Rightarrow> string \<Rightarrow> string \<Rightarrow> string \<Rightarrow> response" where
  "success_response nl_question generated_query sql_query query_results description =
     \<lparr>body = [(''status'', ''success''),
              (''original_question'', nl_question),
              (''generated_query'', generated_query),
              (''sql_query'', sql_query),
              (''query_results'', query_results),
              (''description'', description)],
      status_code = 200\<rparr>"

definition not_callable :: exn where
  "not_callable =
     Exn TypeError ([CHR 0x27] @ ''str'' @ [CHR 0x27] @ '' object is not callable'')"

text \<open>A request whose body is the object with the one member \<open>prompt\<close>.\<close>

definition prompt_request :: "string \<Rightarrow> exn + json" where
  "prompt_request nl_question = Inr (JObj [(''prompt'', JStr nl_question)])"

text \<open>
  Surroundings for concrete runs: the default limit on decimal strings, a schema, a
  backend that answers every question with the given text, an executor that returns
  three rows, and a summarizer that answers.
\<close>

definition env_answering :: "string \<Rightarrow> env" where
  "env_answering generated =
     \<lparr>int_max_str_digits = 4300,
      get_table_info = Inr ''cradles(id, cradlename)'',
      sql_query_chain_invoke = (\<lambda>args. Inr generated),
      db_run = (\<lambda>sql. Inr ''[(1,), (2,), (3,)]''),
      literal_eval = (\<lambda>s. Inr (PList [PTuple [PInt 1], PTuple [PInt 2], PTuple [PInt 3]])),
      py_str = (\<lambda>v. ''[(1,), (2,), (3,)]''),
      result_description_chain_invoke = (\<lambda>args. Inr ''Three cradles.'')\<rparr>"

section \<open>The notions of the claims\<close>


text \<open>The claim's phrase: the first whitespace-delimited token of a text.\<close>

definition first_token :: "string \<Rightarrow> string" where
  "first_token s = takeWhile (\<lambda>c. \<not> is_space c) (dropWhile is_space s)"

text \<open>The pattern \<open>\s*LIMIT\s+\d+\<close> matches somewhere in the text.\<close>

definition has_limit_clause :: "string \<Rightarrow> bool" where
  "has_limit_clause s = (search_from limit_clause_at s \<noteq> None)"

text \<open>
  The same, spelled out: the text holds the word \<open>LIMIT\<close> in any case, then whitespace,
  then a digit.
\<close>

definition limit_clause_in :: "string \<Rightarrow> bool" where
  "limit_clause_in s \<longleftrightarrow>
     (\<exists>pre w ws c post. s = pre @ w @ ws @ c # post \<and> upper w = ''LIMIT'' \<and>
        ws \<noteq> [] \<and> (\<forall>x \<in> set ws. is_space x) \<and> is_digit c)"

text \<open>The claim's phrase: the text holds a fence that opens with \<open>```sql\<close> and closes.\<close>

definition has_sql_fence :: "string \<Rightarrow> bool" where
  "has_sql_fence g \<longleftrightarrow> (\<exists>pre mid post. g = pre @ ''```sql'' @ mid @ ''```'' @ post)"

text \<open>
  The extractor as the claim words it: the fenced interior, trimmed, or else the trimmed
  text without a leading \<open>SQLQuery:\<close>; then, in every branch, one trailing semicolon
  and the whitespace around it are removed.
\<close>

definition strip_one_semicolon :: "string \<Rightarrow> string" where
  "strip_one_semicolon s =
     (let t = strip s
      in if t \<noteq> [] \<and> last t = CHR '';'' then strip (butlast t) else t)"

definition claimed_extractor :: "string \<Rightarrow> string" where
  "claimed_extractor g =
     strip_one_semicolon
       (case fence_search g of
          Some b \<Rightarrow> strip b
        | None \<Rightarrow>
            (let t = strip g
             in if startswith t ''SQLQuery:'' then drop (length ''SQLQuery:'') t else t))"


section \<open>Collaborators for concrete runs\<close>

definition three_cradles :: string where
  "three_cradles = ''```sql\<newline>SELECT * FROM cradles LIMIT 3\<newline>```''"



section \<open>How a run of app.py unfolds\<close>

lemma describe_cases:
  assumes "describe env q g sql r = (resp, evs)"
  shows "(\<exists>e. summarize env r = Inl e \<and> resp = unexpected_error e \<and> evs = []) \<or>
         (\<exists>s out. summarize env r = Inr s \<and>
            out = result_description_chain_invoke env
                    \<lparr>desc_sql_query = sql, desc_query_results = s, desc_original_question = q\<rparr> \<and>
            evs = [Describe \<lparr>desc_sql_query = sql, desc_query_results = s,
                             desc_original_question = q\<rparr> out] \<and>
            resp = success_response q g sql r
                     (case out of Inr content \<Rightarrow> content
                      | Inl e \<Rightarrow> ''Unable to generate description: '' @ message e))"
  using assms
  by (auto simp: describe_def success_response_def Let_def split: sum.splits)

lemma execute_cases:
  assumes "execute env q g = (resp, evs)"
  shows "(\<not> likely_sql (clean_sql g) \<and> evs = [] \<and>
          resp = \<lparr>body = [(''error'', ''Generated query is not valid SQL''),
                           (''generated_query'', g), (''sql_query'', clean_sql g)],
                   status_code = 400\<rparr>) \<or>
         (likely_sql (clean_sql g) \<and>
          (\<exists>sql out. sql = (if \<not> requests_limit q then limit_sub (clean_sql g) else clean_sql g) \<and>
             out = db_run env sql \<and>
             ((\<exists>e. out = Inl e \<and> evs = [DbRun sql out] \<and>
                   resp = \<lparr>body = [(''error'', ''Error executing query: '' @ message e),
                                    (''generated_query'', g), (''sql_query'', sql)],
                            status_code = 500\<rparr>) \<or>
              (\<exists>r evs'. out = Inr r \<and> evs = DbRun sql out # evs' \<and>
                   describe env q g sql r = (resp, evs')))))"
  using assms
  by (auto simp: execute_def Let_def split: sum.splits if_splits prod.splits)

lemma pipeline_cases:
  assumes "pipeline env q = (resp, evs)"
  shows "evs = [] \<or> (\<exists>e. evs = [GetTableInfo (Inl e)]) \<or>
         (\<exists>info args e. evs = [GetTableInfo (Inr info), Generate args (Inl e)]) \<or>
         (\<exists>info args g evs'. evs = GetTableInfo (Inr info) # Generate args (Inr g) # evs' \<and>
             gen_input args = q \<and> execute env q g = (resp, evs'))"
  using assms
  by (auto simp: pipeline_def generate_def Let_def split: sum.splits if_splits prod.splits)

lemma handle_query_cases:
  assumes "handle_query env request = (resp, evs)"
  shows "evs = [] \<or> (\<exists>e. evs = [GetTableInfo (Inl e)]) \<or>
         (\<exists>info args e. evs = [GetTableInfo (Inr info), Generate args (Inl e)]) \<or>
         (\<exists>info args g evs'. evs = GetTableInfo (Inr info) # Generate args (Inr g) # evs' \<and>
             execute env (gen_input args) g = (resp, evs'))"
  using assms unfolding handle_query_def
  by (auto split: sum.splits if_splits json.splits bool.splits dest!: pipeline_cases)

text \<open>The calls of a run after the generation, for a run whose generation returned.\<close>

lemma handle_query_generated:
  assumes "Generate args (Inr g) \<in> set (snd (handle_query env request))"
  shows "\<exists>info evs'.
           execute env (gen_input args) g = (fst (handle_query env request), evs') \<and>
           snd (handle_query env request) = GetTableInfo (Inr info) # Generate args (Inr g) # evs'"
proof -
  obtain resp evs where h: "handle_query env request = (resp, evs)"
    by (cases "handle_query env request")
  have no_gen: "\<And>q g' r es a o'. execute env q g' = (r, es) \<Longrightarrow> Generate a o' \<notin> set es"
    by (auto dest!: execute_cases describe_cases)
  from handle_query_cases [OF h] assms h no_gen show ?thesis
    by auto
qed

lemma handle_query_executed:
  assumes "DbRun sql out \<in> set (snd (handle_query env request))"
  shows "\<exists>args g. Generate args (Inr g) \<in> set (snd (handle_query env request))"
proof -
  obtain resp evs where h: "handle_query env request = (resp, evs)"
    by (cases "handle_query env request")
  from handle_query_cases [OF h] assms h show ?thesis
    by fastforce
qed

section \<open>How a run of main.py unfolds\<close>

lemma execute_main_fails:
  "execute_main env q g = (unexpected_error not_callable, [])"
  by (simp add: execute_main_def call_str_def not_callable_def)

lemma pipeline_main_cases:
  "pipeline_main env q = (resp, evs) \<Longrightarrow>
     (\<exists>e. resp = unexpected_error e) \<and>
     (\<forall>sql out. DbRun sql out \<notin> set evs) \<and>
     (\<forall>args out. Describe args out \<notin> set evs) \<and>
     (\<forall>args g. Generate args (Inr g) \<in> set evs \<longrightarrow>
        resp = unexpected_error not_callable \<and>
        evs = [GetTableInfo (Inr (gen_table_info args)), Generate args (Inr g)])"
  by (auto simp: pipeline_main_def generate_def execute_main_fails Let_def
           split: sum.splits prod.splits)

lemma handle_query_main_cases:
  "handle_query_main env request = (resp, evs) \<Longrightarrow>
     ((\<exists>e. resp = unexpected_error e) \<or>
      resp = \<lparr>body = [(''error'', ''Missing 'prompt' in JSON'')], status_code = 400\<rparr>) \<and>
     (\<forall>sql out. DbRun sql out \<notin> set evs) \<and>
     (\<forall>args out. Describe args out \<notin> set evs) \<and>
     (\<forall>args g. Generate args (Inr g) \<in> set evs \<longrightarrow>
        resp = unexpected_error not_callable \<and>
        evs = [GetTableInfo (Inr (gen_table_info args)), Generate args (Inr g)])"
  unfolding handle_query_main_def
  by (auto split: sum.splits if_splits json.splits bool.splits dest!: pipeline_main_cases)

lemma handle_query_main_with_prompt:
  assumes "map_of kvs ''prompt'' = Some v"
  shows "\<exists>e. fst (handle_query_main env (Inr (JObj kvs))) = unexpected_error e"
proof -
  from assms have "kvs \<noteq> []" by auto
  with assms show ?thesis
    unfolding handle_query_main_def
    by (cases "pipeline_main env (case v of JStr q \<Rightarrow> q | _ \<Rightarrow> [])")
       (auto split: json.splits dest!: pipeline_main_cases)
qed

lemma main_never_executes:
  "DbRun sql out \<notin> set (snd (handle_query_main env request))"
  using handle_query_main_cases [of env request] by (cases "handle_query_main env request") auto

lemma main_never_describes:
  "Describe args out \<notin> set (snd (handle_query_main env request))"
  using handle_query_main_cases [of env request] by (cases "handle_query_main env request") auto

section \<open>What the string functions compute\<close>

lemma startswith_iff: "startswith s p \<longleftrightarrow> (\<exists>t. s = p @ t)"
  by (induction s p rule: startswith.induct) auto

lemma startswith_append [simp]: "startswith (p @ t) p"
  by (simp add: startswith_iff)

lemma startswith_drop: "startswith s p \<Longrightarrow> p @ drop (length p) s = s"
  by (auto simp: startswith_iff)

lemma contains_iff: "contains s sub \<longleftrightarrow> (\<exists>pre post. s = pre @ sub @ post)"
proof (induction s)
  case Nil
  show ?case by (auto simp: startswith_iff)
next
  case (Cons c cs)
  show ?case
  proof
    assume "contains (c # cs) sub"
    then consider "startswith (c # cs) sub" | "contains cs sub" by auto
    then show "\<exists>pre post. c # cs = pre @ sub @ post"
    proof cases
      case 1
      then obtain t where "c # cs = [] @ sub @ t" by (auto simp: startswith_iff)
      then show ?thesis by blast
    next
      case 2
      with Cons.IH obtain pre post where "cs = pre @ sub @ post" by blast
      then have "c # cs = (c # pre) @ sub @ post" by simp
      then show ?thesis by blast
    qed
  next
    assume "\<exists>pre post. c # cs = pre @ sub @ post"
    then obtain pre post where e: "c # cs = pre @ sub @ post" by blast
    show "contains (c # cs) sub"
    proof (cases pre)
      case Nil
      with e have "startswith (c # cs) sub" by (simp add: startswith_iff)
      then show ?thesis by simp
    next
      case (Cons a pre')
      with e have "cs = pre' @ sub @ post" by simp
      with Cons.IH have "contains cs sub" by blast
      then show ?thesis by simp
    qed
  qed
qed

text \<open>
  \<open>search_from\<close> returns what the matcher yields at the leftmost position where it
  yields something.
\<close>

lemma search_from_Some_iff:
  "search_from m s = Some r \<longleftrightarrow>
     (\<exists>pre suf. s = pre @ suf \<and> m suf = Some r \<and>
        (\<forall>pre' suf'. s = pre' @ suf' \<and> length pre' < length pre \<longrightarrow> m suf' = None))"
proof (induction s)
  case Nil
  show ?case by auto
next
  case (Cons c cs)
  show ?case
  proof (cases "m (c # cs)")
    case (Some r')
    have "(\<exists>pre suf. c # cs = pre @ suf \<and> m suf = Some r \<and>
             (\<forall>pre' suf'. c # cs = pre' @ suf' \<and> length pre' < length pre \<longrightarrow> m suf' = None))
          \<longleftrightarrow> r' = r"
    proof
      assume "\<exists>pre suf. c # cs = pre @ suf \<and> m suf = Some r \<and>
             (\<forall>pre' suf'. c # cs = pre' @ suf' \<and> length pre' < length pre \<longrightarrow> m suf' = None)"
      then obtain pre suf where e: "c # cs = pre @ suf" and ms: "m suf = Some r"
        and mn: "\<forall>pre' suf'. c # cs = pre' @ suf' \<and> length pre' < length pre \<longrightarrow> m suf' = None"
        by blast
      show "r' = r"
      proof (cases pre)
        case Nil
        with e ms Some show ?thesis by simp
      next
        case (Cons a pre')
        with mn have "m (c # cs) = None" by (auto elim: allE [of _ "[]"])
        with Some show ?thesis by simp
      qed
    next
      assume "r' = r"
      with Some have "c # cs = [] @ (c # cs) \<and> m (c # cs) = Some r \<and>
        (\<forall>pre' suf'. c # cs = pre' @ suf' \<and> length pre' < length ([]::string) \<longrightarrow> m suf' = None)"
        by simp
      then show "\<exists>pre suf. c # cs = pre @ suf \<and> m suf = Some r \<and>
             (\<forall>pre' suf'. c # cs = pre' @ suf' \<and> length pre' < length pre \<longrightarrow> m suf' = None)"
        by blast
    qed
    with Some show ?thesis by simp
  next
    case None
    have "(\<exists>pre suf. c # cs = pre @ suf \<and> m suf = Some r \<and>
             (\<forall>pre' suf'. c # cs = pre' @ suf' \<and> length pre' < length pre \<longrightarrow> m suf' = None))
          \<longleftrightarrow>
          (\<exists>pre suf. cs = pre @ suf \<and> m suf = Some r \<and>
             (\<forall>pre' suf'. cs = pre' @ suf' \<and> length pre' < length pre \<longrightarrow> m suf' = None))"
      (is "?L \<longleftrightarrow> ?R")
    proof
      assume ?L
      then obtain pre suf where e: "c # cs = pre @ suf" and ms: "m suf = Some r"
        and mn: "\<forall>pre' suf'. c # cs = pre' @ suf' \<and> length pre' < length pre \<longrightarrow> m suf' = None"
        by blast
      from e ms None obtain p where p: "pre = c # p" by (cases pre) auto
      with e have e': "cs = p @ suf" by simp
      have "\<forall>pre' suf'. cs = pre' @ suf' \<and> length pre' < length p \<longrightarrow> m suf' = None"
      proof (intro allI impI)
        fix pre' suf'
        assume "cs = pre' @ suf' \<and> length pre' < length p"
        then have "c # cs = (c # pre') @ suf' \<and> length (c # pre') < length pre"
          using p by simp
        with mn show "m suf' = None" by blast
      qed
      with e' ms show ?R by blast
    next
      assume ?R
      then obtain pre suf where e: "cs = pre @ suf" and ms: "m suf = Some r"
        and mn: "\<forall>pre' suf'. cs = pre' @ suf' \<and> length pre' < length pre \<longrightarrow> m suf' = None"
        by blast
      have "\<forall>pre' suf'. c # cs = pre' @ suf' \<and> length pre' < length (c # pre) \<longrightarrow> m suf' = None"
      proof (intro allI impI)
        fix pre' suf'
        assume a: "c # cs = pre' @ suf' \<and> length pre' < length (c # pre)"
        show "m suf' = None"
        proof (cases pre')
          case Nil
          with a None show ?thesis by simp
        next
          case (Cons a' p')
          with a have "cs = p' @ suf' \<and> length p' < length pre" by simp
          with mn show ?thesis by blast
        qed
      qed
      moreover from e have "c # cs = (c # pre) @ suf" by simp
      ultimately show ?L using ms by blast
    qed
    with None Cons.IH show ?thesis by simp
  qed
qed

lemma search_from_None_iff:
  "search_from m s = None \<longleftrightarrow> (\<forall>pre suf. s = pre @ suf \<longrightarrow> m suf = None)"
proof (induction s)
  case Nil
  show ?case by auto
next
  case (Cons c cs)
  have "(\<forall>pre suf. c # cs = pre @ suf \<longrightarrow> m suf = None) \<longleftrightarrow>
        m (c # cs) = None \<and> (\<forall>pre suf. cs = pre @ suf \<longrightarrow> m suf = None)"
    (is "?L \<longleftrightarrow> ?R")
  proof
    assume l: ?L
    then have "m (c # cs) = None" by (auto elim: allE [of _ "[]"])
    moreover have "\<forall>pre suf. cs = pre @ suf \<longrightarrow> m suf = None"
    proof (intro allI impI)
      fix pre suf assume "cs = pre @ suf"
      then have "c # cs = (c # pre) @ suf" by simp
      with l show "m suf = None" by blast
    qed
    ultimately show ?R by blast
  next
    assume r: ?R
    show ?L
    proof (intro allI impI)
      fix pre suf assume e: "c # cs = pre @ suf"
      show "m suf = None"
      proof (cases pre)
        case Nil
        with e r show ?thesis by simp
      next
        case (Cons a p)
        with e have "cs = p @ suf" by simp
        with r show ?thesis by blast
      qed
    qed
  qed
  with Cons.IH show ?case by (simp split: option.splits)
qed

section \<open>The limit hint\<close>

lemma digit_not_space: "is_digit c \<Longrightarrow> \<not> is_space c"
  by (auto simp: is_digit_def is_space_def digits_def)








section \<open>Stripped text\<close>

lemma rstrip_prefix: "rstrip t @ rev (takeWhile is_space (rev t)) = t"
proof -
  have "rev (takeWhile is_space (rev t) @ dropWhile is_space (rev t)) = t"
    by simp
  then show ?thesis
    unfolding rstrip_def rev_append .
qed

lemma rstrip_no_trailing_space: "rstrip t = [] \<or> \<not> is_space (last (rstrip t))"
proof (cases "dropWhile is_space (rev t) = []")
  case True
  then show ?thesis by (simp add: rstrip_def)
next
  case False
  then have "\<not> is_space (hd (dropWhile is_space (rev t)))"
    by (rule hd_dropWhile)
  with False show ?thesis
    by (simp add: rstrip_def last_rev)
qed

lemma strip_no_leading_space: "strip s = [] \<or> \<not> is_space (hd (strip s))"
proof (cases "strip s = []")
  case False
  define t where "t = lstrip s"
  from False have r: "rstrip t \<noteq> []" by (simp add: strip_def t_def)
  with rstrip_prefix [of t] have "hd (rstrip t) = hd t"
    by (metis hd_append2)
  moreover from r rstrip_prefix [of t] have "t \<noteq> []" by auto
  then have "\<not> is_space (hd t)"
    unfolding t_def lstrip_def by (rule hd_dropWhile)
  ultimately show ?thesis by (simp add: strip_def t_def)
qed simp

lemma strip_no_trailing_space: "strip s = [] \<or> \<not> is_space (last (strip s))"
  unfolding strip_def by (rule rstrip_no_trailing_space)

lemma strip_id:
  assumes "b = [] \<or> (\<not> is_space (hd b) \<and> \<not> is_space (last b))"
  shows "strip b = b"
proof (cases b)
  case Nil
  then show ?thesis by (simp add: strip_def lstrip_def rstrip_def)
next
  case (Cons c cs)
  with assms have h: "\<not> is_space (hd b)" and l: "\<not> is_space (last b)" by auto
  from Cons h have "lstrip b = b" by (simp add: lstrip_def)
  moreover have "hd (rev b) = last b"
    by (rule hd_rev)
  with l have "dropWhile is_space (rev b) = rev b"
    by (simp only: dropWhile_eq_self_iff simp_thms)
  then have "rstrip b = b" by (simp add: rstrip_def)
  ultimately show ?thesis by (simp add: strip_def)
qed

lemma clean_sql_stripped: "\<exists>x. clean_sql g = strip x"
  by (auto simp: clean_sql_def Let_def split: option.splits)

section \<open>The validation\<close>

lemma likely_sql_iff:
  "likely_sql c \<longleftrightarrow> (\<exists>k \<in> set [''SELECT'', ''SHOW'', ''DESCRIBE'']. \<exists>t. upper c = k @ t)"
  unfolding likely_sql_def list_ex_iff startswith_iff ..

lemma first_token_likely_sql:
  assumes "upper (first_token (clean_sql g)) \<in> set [''SELECT'', ''SHOW'', ''DESCRIBE'']"
  shows "likely_sql (clean_sql g)"
proof -
  define c where "c = clean_sql g"
  obtain x where "c = strip x" unfolding c_def using clean_sql_stripped by blast
  with strip_no_leading_space [of x] have "c = [] \<or> \<not> is_space (hd c)" by simp
  then have "dropWhile is_space c = c" by (cases c) auto
  then have "first_token c @ dropWhile (\<lambda>c. \<not> is_space c) c = c"
    by (simp add: first_token_def)
  then have "upper c = upper (first_token c) @ upper (dropWhile (\<lambda>c. \<not> is_space c) c)"
    unfolding upper_def map_append [symmetric] by simp
  with assms show ?thesis
    unfolding likely_sql_iff c_def by blast
qed

section \<open>The removal of the limit\<close>

lemma limit_clause_at_Nil [simp]: "limit_clause_at [] = None"
  by (simp add: limit_clause_at_def upper_def)

lemma upper_take: "upper (take n s) = take n (upper s)"
  by (simp add: upper_def take_map)

lemma upper_append: "upper (a @ b) = upper a @ upper b"
  by (simp add: upper_def)

lemma upper_length [simp]: "length (upper s) = length s"
  by (simp add: upper_def)

lemma upper_space: "is_space c \<Longrightarrow> upper_char c = c"
proof -
  have "\<forall>c \<in> set [CHR 0x09, CHR 0x0A, CHR 0x0B, CHR 0x0C, CHR 0x0D,
                     CHR 0x1C, CHR 0x1D, CHR 0x1E, CHR 0x1F, CHR '' '',
                     CHR 0x85, CHR 0xA0]. upper_char c = c"
    by code_simp
  then show "is_space c \<Longrightarrow> upper_char c = c"
    unfolding is_space_def by blast
qed

lemma limit_clause_at_Some:
  assumes "limit_clause_at s = Some r"
  shows "\<exists>ws w ws1 c post. s = ws @ w @ ws1 @ c # post \<and> (\<forall>x \<in> set ws. is_space x) \<and>
           upper w = ''LIMIT'' \<and> ws1 \<noteq> [] \<and> (\<forall>x \<in> set ws1. is_space x) \<and> is_digit c"
proof -
  define r0 where "r0 = dropWhile is_space s"
  define r1 where "r1 = drop 5 r0"
  define r2 where "r2 = dropWhile is_space r1"
  from assms have sw: "startswith (upper r0) ''LIMIT''"
    and ws1: "takeWhile is_space r1 \<noteq> []" and ds: "takeWhile is_digit r2 \<noteq> []"
    by (auto simp: limit_clause_at_def Let_def r0_def r1_def r2_def split: if_splits)
  from ds obtain c post where r2: "r2 = c # post" and c: "is_digit c"
    by (cases r2) (auto split: if_splits)
  from sw have "take 5 (upper r0) = ''LIMIT''"
    by (auto simp: startswith_iff)
  then have w: "upper (take 5 r0) = ''LIMIT''"
    by (simp add: upper_take)
  have "s = takeWhile is_space s @ r0" by (simp add: r0_def)
  also have "r0 = take 5 r0 @ r1" by (simp add: r1_def)
  also have "r1 = takeWhile is_space r1 @ r2" by (simp add: r2_def)
  finally have "s = takeWhile is_space s @ take 5 r0 @ takeWhile is_space r1 @ c # post"
    by (simp add: r2)
  moreover have "\<forall>x \<in> set (takeWhile is_space s). is_space x"
    by (auto dest: set_takeWhileD)
  moreover have "\<forall>x \<in> set (takeWhile is_space r1). is_space x"
    by (auto dest: set_takeWhileD)
  ultimately show ?thesis using w ws1 c by blast
qed

lemma upper_LIMIT_no_space:
  assumes "upper w = ''LIMIT''"
  shows "length w = 5" and "dropWhile is_space (w @ t) = w @ t"
proof -
  have "length w = length (upper w)" by simp
  also have "\<dots> = 5" by (simp only: assms) simp
  finally show lw: "length w = 5" .
  then obtain a w' where w: "w = a # w'" by (cases w) auto
  from assms have "upper_char a # map upper_char w' = CHR ''L'' # ''IMIT''"
    unfolding w upper_def list.map .
  then have ua: "upper_char a = CHR ''L''" by (simp only: list.inject)
  have "\<not> is_space a"
  proof
    assume sp: "is_space a"
    from upper_space [OF sp] ua have "a = CHR ''L''" by simp
    with sp have "is_space (CHR ''L'')" by simp
    then show False by (simp add: is_space_def)
  qed
  then show "dropWhile is_space (w @ t) = w @ t"
    by (simp add: w)
qed

lemma limit_clause_at_match:
  assumes "upper w = ''LIMIT''" and "ws \<noteq> []" and "\<forall>x \<in> set ws. is_space x" and "is_digit c"
  shows "limit_clause_at (w @ ws @ c # post) \<noteq> None"
proof -
  note lw = upper_LIMIT_no_space(1) [OF assms(1)]
  note d = upper_LIMIT_no_space(2) [OF assms(1), of "ws @ c # post"]
  have sw: "startswith (upper (w @ ws @ c # post)) ''LIMIT''"
    unfolding upper_append assms(1) by (rule startswith_append)
  from assms(4) have nc: "\<not> is_space c" by (rule digit_not_space)
  from assms(3) nc have tw: "takeWhile is_space (ws @ c # post) = ws"
    by (simp add: takeWhile_tail)
  from assms(3) nc have dw: "dropWhile is_space (ws @ c # post) = c # post"
    by (simp add: dropWhile_append2)
  from lw have dr: "drop 5 (w @ ws @ c # post) = ws @ c # post"
    by simp
  have "limit_clause_at (w @ ws @ c # post) =
     (if startswith (upper (w @ ws @ c # post)) ''LIMIT'' then
        (if takeWhile is_space (ws @ c # post) \<noteq> [] \<and> takeWhile is_digit (c # post) \<noteq> []
         then Some (dropWhile is_digit (c # post)) else None)
      else None)"
    by (simp only: limit_clause_at_def Let_def d dr dw)
  also have "\<dots> = Some (dropWhile is_digit (c # post))"
    by (simp only: sw tw if_True) (simp add: assms(2,4))
  finally show ?thesis by simp
qed

lemma search_from_SomeD:
  assumes "search_from m s = Some r"
  shows "\<exists>pre suf. s = pre @ suf \<and> m suf = Some r"
proof -
  from assms have "\<exists>pre suf. s = pre @ suf \<and> m suf = Some r \<and>
        (\<forall>pre' suf'. s = pre' @ suf' \<and> length pre' < length pre \<longrightarrow> m suf' = None)"
    by (simp only: search_from_Some_iff)
  then obtain pre suf where "s = pre @ suf" and "m suf = Some r"
    by (elim exE conjE)
  then show ?thesis by (intro exI conjI)
qed

lemma search_from_found:
  assumes "m suf \<noteq> None"
  shows "search_from m (pre @ suf) \<noteq> None"
proof
  assume "search_from m (pre @ suf) = None"
  then have "\<forall>p t. pre @ suf = p @ t \<longrightarrow> m t = None"
    by (simp only: search_from_None_iff)
  then have "pre @ suf = pre @ suf \<longrightarrow> m suf = None"
    by (elim allE)
  with assms show False by simp
qed

lemma has_limit_clause_iff: "has_limit_clause s \<longleftrightarrow> limit_clause_in s"
proof
  assume "has_limit_clause s"
  then have "search_from limit_clause_at s \<noteq> None"
    unfolding has_limit_clause_def .
  then obtain r where "search_from limit_clause_at s = Some r"
    by auto
  from search_from_SomeD [OF this] obtain pre suf
    where s: "s = pre @ suf" and m: "limit_clause_at suf = Some r"
    by (elim exE conjE)
  from limit_clause_at_Some [OF m] obtain ws w ws1 c post
    where suf: "suf = ws @ w @ ws1 @ c # post" and h: "upper w = ''LIMIT''" "ws1 \<noteq> []"
      "\<forall>x \<in> set ws1. is_space x" "is_digit c"
    by (elim exE conjE)
  from s suf have "s = (pre @ ws) @ w @ ws1 @ c # post"
    by simp
  with h show "limit_clause_in s"
    unfolding limit_clause_in_def by (intro exI conjI)
next
  assume "limit_clause_in s"
  then obtain pre w ws c post where s: "s = pre @ w @ ws @ c # post"
    and h: "upper w = ''LIMIT''" "ws \<noteq> []" "\<forall>x \<in> set ws. is_space x" "is_digit c"
    unfolding limit_clause_in_def by (elim exE conjE)
  from limit_clause_at_match [OF h] have "limit_clause_at (w @ ws @ c # post) \<noteq> None" .
  then have "search_from limit_clause_at (pre @ w @ ws @ c # post) \<noteq> None"
    by (rule search_from_found)
  then show "has_limit_clause s"
    unfolding has_limit_clause_def s .
qed

lemma limit_sub_unchanged: "\<not> has_limit_clause s \<Longrightarrow> limit_sub s = s"
  unfolding has_limit_clause_def
  by (induction s) (auto split: option.splits)

lemma limit_sub_length_le: "length (limit_sub s) \<le> length s"
proof (induction s rule: limit_sub.induct)
  case 1
  show ?case by simp
next
  case (2 c cs)
  show ?case
  proof (cases "limit_clause_at (c # cs)")
    case None
    with 2 show ?thesis by simp
  next
    case (Some r)
    with 2 have "length (limit_sub r) \<le> length r" by simp
    with limit_clause_at_shorter [OF Some] Some show ?thesis by simp
  qed
qed

lemma limit_sub_shorter: "has_limit_clause s \<Longrightarrow> length (limit_sub s) < length s"
  unfolding has_limit_clause_def
proof (induction s)
  case Nil
  then show ?case by simp
next
  case (Cons c cs)
  show ?case
  proof (cases "limit_clause_at (c # cs)")
    case None
    with Cons show ?thesis by simp
  next
    case (Some r)
    with limit_clause_at_shorter [OF Some] limit_sub_length_le [of r]
    show ?thesis by simp
  qed
qed

section \<open>The fenced block\<close>

lemma backtick_not_space: "\<not> is_space (CHR 0x60)"
  by (simp add: is_space_def)

lemma startswith_marker_no_space:
  "startswith (c # cs) ''```'' \<Longrightarrow> \<not> is_space c"
  using backtick_not_space by auto

lemma startswith_longer: "startswith a p \<Longrightarrow> startswith (a @ b) p"
  by (auto simp: startswith_iff)

lemma fence_close_Some:
  "fence_close s = Some b \<Longrightarrow>
     \<exists>ws post. s = b @ ws @ ''```'' @ post \<and> (\<forall>x \<in> set ws. is_space x) \<and>
       \<not> contains b ''```'' \<and> (b = [] \<or> \<not> is_space (last b)) \<and> (b \<noteq> [] \<longrightarrow> hd b = hd s)"
proof (induction s arbitrary: b)
  case Nil
  then show ?case by simp
next
  case (Cons c cs)
  show ?case
  proof (cases "startswith (dropWhile is_space (c # cs)) ''```''")
    case True
    with Cons.prems have b: "b = []" by simp
    define ws where "ws = takeWhile is_space (c # cs)"
    define post where "post = drop (length ''```'') (dropWhile is_space (c # cs))"
    from startswith_drop [OF True] have "dropWhile is_space (c # cs) = ''```'' @ post"
      unfolding post_def by simp
    then have "c # cs = ws @ ''```'' @ post"
      unfolding ws_def by (metis takeWhile_dropWhile_id)
    moreover have "\<forall>x \<in> set ws. is_space x"
      unfolding ws_def by (auto dest: set_takeWhileD)
    ultimately show ?thesis
      unfolding b by (intro exI [of _ ws] exI [of _ post]) simp
  next
    case False
    with Cons.prems obtain b' where fc: "fence_close cs = Some b'" and b: "b = c # b'"
      by auto
    from Cons.IH [OF fc] obtain ws post where cs: "cs = b' @ ws @ ''```'' @ post"
      and ws: "\<forall>x \<in> set ws. is_space x" and nc: "\<not> contains b' ''```''"
      and lb: "b' = [] \<or> \<not> is_space (last b')"
      by blast
    have ns: "\<not> startswith (c # b') ''```''"
    proof
      assume sw: "startswith (c # b') ''```''"
      then have "\<not> is_space c" by (rule startswith_marker_no_space)
      then have "dropWhile is_space (c # cs) = (c # b') @ ws @ ''```'' @ post"
        by (simp add: cs)
      with startswith_longer [OF sw] False show False by simp
    qed
    have l: "\<not> is_space (last (c # b'))"
    proof (cases "b' = []")
      case True
      have "\<not> is_space c"
      proof
        assume "is_space c"
        with ws have "dropWhile is_space (c # cs) = ''```'' @ post"
          using backtick_not_space by (simp add: cs True dropWhile_append2)
        with False show False by simp
      qed
      with True show ?thesis by simp
    next
      case False
      with lb show ?thesis by simp
    qed
    from cs have "c # cs = (c # b') @ ws @ ''```'' @ post" by simp
    with ws ns nc l show ?thesis
      unfolding b by (intro exI [of _ ws] exI [of _ post]) simp
  qed
qed

lemma fence_match_at_Some:
  assumes "fence_match_at s = Some b"
  shows "\<exists>ws ws' post. s = ''```sql'' @ ws @ b @ ws' @ ''```'' @ post \<and>
           (\<forall>x \<in> set ws. is_space x) \<and> (\<forall>x \<in> set ws'. is_space x) \<and>
           \<not> contains b ''```'' \<and> strip b = b"
proof -
  define r where "r = drop 6 s"
  define ws where "ws = takeWhile is_space r"
  define t where "t = dropWhile is_space r"
  from assms have sw: "startswith s ''```sql''" and fc: "fence_close t = Some b"
    by (auto simp: fence_match_at_def r_def t_def split: if_splits)
  have "length ''```sql'' = 6" by simp
  with startswith_drop [OF sw] have "''```sql'' @ r = s"
    unfolding r_def by (simp only:)
  then have s: "s = ''```sql'' @ ws @ t"
    unfolding ws_def t_def by simp
  from fence_close_Some [OF fc] obtain ws' post where t: "t = b @ ws' @ ''```'' @ post"
    and ws': "\<forall>x \<in> set ws'. is_space x" and nc: "\<not> contains b ''```''"
    and lb: "b = [] \<or> \<not> is_space (last b)" and hb: "b \<noteq> [] \<longrightarrow> hd b = hd t"
    by blast
  from t have "t \<noteq> []" by simp
  then have "\<not> is_space (hd t)"
    unfolding t_def by (rule hd_dropWhile)
  with lb hb have "b = [] \<or> (\<not> is_space (hd b) \<and> \<not> is_space (last b))"
    by auto
  then have sb: "strip b = b" by (rule strip_id)
  have w: "\<forall>x \<in> set ws. is_space x"
    unfolding ws_def by (auto dest: set_takeWhileD)
  from s t have "s = ''```sql'' @ ws @ b @ ws' @ ''```'' @ post" by simp
  with w ws' nc sb show ?thesis by blast
qed

lemma fence_close_found: "contains s ''```'' \<Longrightarrow> fence_close s \<noteq> None"
proof (induction s)
  case Nil
  then show ?case by simp
next
  case (Cons c cs)
  show ?case
  proof (cases "startswith (dropWhile is_space (c # cs)) ''```''")
    case True
    then show ?thesis by simp
  next
    case False
    have "\<not> startswith (c # cs) ''```''"
    proof
      assume sw: "startswith (c # cs) ''```''"
      then have "\<not> is_space c" by (rule startswith_marker_no_space)
      with sw False show False by simp
    qed
    moreover from Cons.prems have "startswith (c # cs) ''```'' \<or> contains cs ''```''"
      by (simp only: contains.simps)
    ultimately have "contains cs ''```''" by blast
    with Cons.IH False show ?thesis by simp
  qed
qed

lemma contains_after_spaces:
  "contains s ''```'' \<Longrightarrow> contains (dropWhile is_space s) ''```''"
proof (induction s)
  case Nil
  then show ?case by simp
next
  case (Cons c cs)
  show ?case
  proof (cases "is_space c")
    case True
    with startswith_marker_no_space [of c cs] have "\<not> startswith (c # cs) ''```''" by blast
    moreover from Cons.prems have "startswith (c # cs) ''```'' \<or> contains cs ''```''"
      by (simp only: contains.simps)
    ultimately have "contains cs ''```''" by blast
    with Cons.IH True show ?thesis by simp
  next
    case False
    with Cons.prems show ?thesis by simp
  qed
qed

lemma fence_match_at_found:
  "fence_match_at (''```sql'' @ mid @ ''```'' @ post) \<noteq> None"
proof -
  have "contains (mid @ ''```'' @ post) ''```''"
    unfolding contains_iff by (intro exI [of _ mid] exI [of _ post]) simp
  then have "contains (dropWhile is_space (mid @ ''```'' @ post)) ''```''"
    by (rule contains_after_spaces)
  then have "fence_close (dropWhile is_space (mid @ ''```'' @ post)) \<noteq> None"
    by (rule fence_close_found)
  then show ?thesis
    by (simp add: fence_match_at_def)
qed

lemma fence_search_Some:
  assumes "fence_search g = Some b"
  shows "\<exists>pre ws ws' post. g = pre @ ''```sql'' @ ws @ b @ ws' @ ''```'' @ post \<and>
           (\<forall>x \<in> set ws. is_space x) \<and> (\<forall>x \<in> set ws'. is_space x) \<and>
           (\<forall>pre' mid' post'. length pre' < length pre
              \<longrightarrow> g \<noteq> pre' @ ''```sql'' @ mid' @ ''```'' @ post') \<and>
           \<not> contains b ''```'' \<and> strip b = b"
proof -
  from assms have "search_from fence_match_at g = Some b"
    unfolding fence_search_def .
  then have "\<exists>pre suf. g = pre @ suf \<and> fence_match_at suf = Some b \<and>
        (\<forall>pre' suf'. g = pre' @ suf' \<and> length pre' < length pre \<longrightarrow> fence_match_at suf' = None)"
    by (simp only: search_from_Some_iff)
  then obtain pre suf
    where g: "g = pre @ suf" and m: "fence_match_at suf = Some b"
      and least: "\<forall>pre' suf'. g = pre' @ suf' \<and> length pre' < length pre
                    \<longrightarrow> fence_match_at suf' = None"
    by (elim exE conjE)
  from fence_match_at_Some [OF m] obtain ws ws' post
    where "suf = ''```sql'' @ ws @ b @ ws' @ ''```'' @ post"
      and p: "\<forall>x \<in> set ws. is_space x" "\<forall>x \<in> set ws'. is_space x"
        "\<not> contains b ''```''" "strip b = b"
    by (elim exE conjE)
  with g have d: "g = pre @ ''```sql'' @ ws @ b @ ws' @ ''```'' @ post" by simp
  have l: "\<forall>pre' mid' post'. length pre' < length pre
              \<longrightarrow> g \<noteq> pre' @ ''```sql'' @ mid' @ ''```'' @ post'"
  proof (intro allI impI notI)
    fix pre' mid' post'
    assume lt: "length pre' < length pre"
      and e: "g = pre' @ ''```sql'' @ mid' @ ''```'' @ post'"
    from least have "g = pre' @ (''```sql'' @ mid' @ ''```'' @ post') \<and> length pre' < length pre
                       \<longrightarrow> fence_match_at (''```sql'' @ mid' @ ''```'' @ post') = None"
      by (elim allE)
    with lt e have "fence_match_at (''```sql'' @ mid' @ ''```'' @ post') = None" by simp
    with fence_match_at_found [of mid' post'] show False by simp
  qed
  from d p l show ?thesis by (intro exI conjI)
qed

lemma has_sql_fence_iff: "fence_search g \<noteq> None \<longleftrightarrow> has_sql_fence g"
proof
  assume "fence_search g \<noteq> None"
  then obtain b where "fence_search g = Some b" by auto
  from fence_search_Some [OF this] obtain pre ws ws' post
    where "g = pre @ ''```sql'' @ ws @ b @ ws' @ ''```'' @ post"
    by (elim exE conjE)
  then have "g = pre @ ''```sql'' @ (ws @ b @ ws') @ ''```'' @ post" by simp
  then show "has_sql_fence g"
    unfolding has_sql_fence_def by (intro exI)
next
  assume "has_sql_fence g"
  then obtain pre mid post where g: "g = pre @ ''```sql'' @ mid @ ''```'' @ post"
    unfolding has_sql_fence_def by (elim exE)
  have "fence_match_at (''```sql'' @ mid @ ''```'' @ post) \<noteq> None"
    by (rule fence_match_at_found)
  then have "search_from fence_match_at (pre @ ''```sql'' @ mid @ ''```'' @ post) \<noteq> None"
    by (rule search_from_found)
  then show "fence_search g \<noteq> None"
    unfolding fence_search_def g .
qed

section \<open>The guard and the sampling step, case by case\<close>

lemma guard_rejects:
  "falsy data \<or> prompt_in data = Inr False \<Longrightarrow>
     handle_query env (Inr data) =
       (\<lparr>body = [(''error'', ''Missing 'prompt' in JSON payload'')], status_code = 400\<rparr>, [])"
  by (auto simp: handle_query_def)

lemma guard_raises:
  "handle_query env (Inl e) = (unexpected_error e, [])"
  "\<not> falsy data \<Longrightarrow> prompt_in data = Inl e \<Longrightarrow>
     handle_query env (Inr data) = (unexpected_error e, [])"
  by (simp_all add: handle_query_def)

lemma slice5_error: "slice5 v = Inl e \<Longrightarrow> kind e = TypeError"
  by (cases v) auto




lemma summarize_not_a_sequence:
  "r \<noteq> [] \<Longrightarrow> literal_eval env r = Inr v \<Longrightarrow> slice5 v = Inl e \<Longrightarrow>
     summarize env r = Inl e"
  by (auto simp: summarize_def parse_rows_def dest: slice5_error)

text \<open>
  What main.py's \<open>extract_sql\<close> returns on three texts: the fenced block that starts
  with \<open>SELECT\<close>; the first \<open>SELECT\<close> with its semicolon; the text before the first
  semicolon, with its prefix.
\<close>

lemma extract_sql_examples:
  "extract_sql ''```sql\<newline>SELECT 1;\<newline>```'' = ''SELECT 1;''"
  "extract_sql ''Here: select 1; select 2;'' = ''select 1;''"
  "extract_sql ''SQLQuery: SHOW TABLES; x'' = ''SQLQuery: SHOW TABLES''"
  by code_simp+

section \<open>Concrete runs\<close>

lemma run_success:
  "handle_query (env_answering three_cradles) (prompt_request ''show top 3 cradles'') =
     (success_response ''show top 3 cradles'' three_cradles ''SELECT * FROM cradles LIMIT 3''
        ''[(1,), (2,), (3,)]'' ''Three cradles.'',
      [GetTableInfo (Inr ''cradles(id, cradlename)''),
       Generate \<lparr>gen_input = ''show top 3 cradles'', gen_top_k = 3,
                 gen_table_info = ''cradles(id, cradlename)'',
                 gen_question = ''show top 3 cradles''\<rparr> (Inr three_cradles),
       DbRun ''SELECT * FROM cradles LIMIT 3'' (Inr ''[(1,), (2,), (3,)]''),
       Describe \<lparr>desc_sql_query = ''SELECT * FROM cradles LIMIT 3'',
                 desc_query_results = ''[(1,), (2,), (3,)]'',
                 desc_original_question = ''show top 3 cradles''\<rparr> (Inr ''Three cradles.'')])"
  by code_simp

lemma run_execution_fails:
  "handle_query (env_answering three_cradles
                   \<lparr>db_run := \<lambda>sql. Inl (Exn OtherError ''relation does not exist'')\<rparr>)
     (prompt_request ''show top 3 cradles'') =
     (\<lparr>body = [(''error'', ''Error executing query: relation does not exist''),
               (''generated_query'', three_cradles),
               (''sql_query'', ''SELECT * FROM cradles LIMIT 3'')],
       status_code = 500\<rparr>,
      [GetTableInfo (Inr ''cradles(id, cradlename)''),
       Generate \<lparr>gen_input = ''show top 3 cradles'', gen_top_k = 3,
                 gen_table_info = ''cradles(id, cradlename)'',
                 gen_question = ''show top 3 cradles''\<rparr> (Inr three_cradles),
       DbRun ''SELECT * FROM cradles LIMIT 3'' (Inl (Exn OtherError ''relation does not exist''))])"
  by code_simp

lemma run_description_fails:
  "handle_query (env_answering three_cradles
                   \<lparr>result_description_chain_invoke := \<lambda>args. Inl (Exn OtherError ''model not found'')\<rparr>)
     (prompt_request ''show top 3 cradles'') =
     (success_response ''show top 3 cradles'' three_cradles ''SELECT * FROM cradles LIMIT 3''
        ''[(1,), (2,), (3,)]'' ''Unable to generate description: model not found'',
      [GetTableInfo (Inr ''cradles(id, cradlename)''),
       Generate \<lparr>gen_input = ''show top 3 cradles'', gen_top_k = 3,
                 gen_table_info = ''cradles(id, cradlename)'',
                 gen_question = ''show top 3 cradles''\<rparr> (Inr three_cradles),
       DbRun ''SELECT * FROM cradles LIMIT 3'' (Inr ''[(1,), (2,), (3,)]''),
       Describe \<lparr>desc_sql_query = ''SELECT * FROM cradles LIMIT 3'',
                 desc_query_results = ''[(1,), (2,), (3,)]'',
                 desc_original_question = ''show top 3 cradles''\<rparr>
         (Inl (Exn OtherError ''model not found''))])"
  by code_simp

lemma run_main:
  "handle_query_main (env_answering three_cradles) (prompt_request ''show top 3 cradles'') =
     (\<lparr>body = [(''error'', ''Unexpected error: 'str' object is not callable'')],
       status_code = 500\<rparr>,
      [GetTableInfo (Inr ''cradles(id, cradlename)''),
       Generate \<lparr>gen_input = ''show top 3 cradles'', gen_top_k = 3,
                 gen_table_info = ''cradles(id, cradlename)'',
                 gen_question = ''show top 3 cradles''\<rparr> (Inr three_cradles)])"
  by code_simp

lemma run_rejected:
  "handle_query (env_answering ''DROP TABLE vessels;'') (prompt_request ''list all vessels'') =
     (\<lparr>body = [(''error'', ''Generated query is not valid SQL''),
               (''generated_query'', ''DROP TABLE vessels;''),
               (''sql_query'', ''DROP TABLE vessels'')],
       status_code = 400\<rparr>,
      [GetTableInfo (Inr ''cradles(id, cradlename)''),
       Generate \<lparr>gen_input = ''list all vessels'', gen_top_k = 1000,
                 gen_table_info = ''cradles(id, cradlename)'',
                 gen_question = ''list all vessels''\<rparr> (Inr ''DROP TABLE vessels;'')])"
  by code_simp

section \<open>The claims\<close>

text \<open>
  C1, as amended. The validation of app.py is a prefix test on the uppercased
  candidate, not a test of its first token. A candidate that does not start with
  \<open>SELECT\<close>, \<open>SHOW\<close> or \<open>DESCRIBE\<close> is answered with the validation error, status
  400, and the executor is not called; a candidate that starts with one of them goes to
  the executor and is not answered with 400. A candidate whose first token is one of the
  three words starts with it, so it passes.
\<close>

theorem validation_is_a_prefix_test:
  "Generate args (Inr generated) \<in> set (snd (handle_query env request)) \<longrightarrow>
     (likely_sql (clean_sql generated) \<longleftrightarrow>
        (\<exists>k \<in> set [''SELECT'', ''SHOW'', ''DESCRIBE'']. \<exists>t. upper (clean_sql generated) = k @ t)) \<and>
     (\<not> likely_sql (clean_sql generated) \<longrightarrow>
        fst (handle_query env request) =
          \<lparr>body = [(''error'', ''Generated query is not valid SQL''),
                   (''generated_query'', generated),
                   (''sql_query'', clean_sql generated)],
           status_code = 400\<rparr> \<and>
        (\<forall>sql out. DbRun sql out \<notin> set (snd (handle_query env request)))) \<and>
     (likely_sql (clean_sql generated) \<longrightarrow>
        status_code (fst (handle_query env request)) \<noteq> 400 \<and>
        (\<exists>sql. DbRun sql (db_run env sql) \<in> set (snd (handle_query env request)))) \<and>
     (upper (first_token (clean_sql generated)) \<in> set [''SELECT'', ''SHOW'', ''DESCRIBE'']
        \<longrightarrow> likely_sql (clean_sql generated))"
proof
  assume g: "Generate args (Inr generated) \<in> set (snd (handle_query env request))"
  from handle_query_generated [OF g] obtain info evs'
    where x: "execute env (gen_input args) generated = (fst (handle_query env request), evs')"
      and s: "snd (handle_query env request) =
                GetTableInfo (Inr info) # Generate args (Inr generated) # evs'"
    by blast
  note c = execute_cases [OF x]
  have 1: "likely_sql (clean_sql generated) \<longleftrightarrow>
        (\<exists>k \<in> set [''SELECT'', ''SHOW'', ''DESCRIBE'']. \<exists>t. upper (clean_sql generated) = k @ t)"
    by (rule likely_sql_iff)
  have 2: "\<not> likely_sql (clean_sql generated) \<longrightarrow>
        fst (handle_query env request) =
          \<lparr>body = [(''error'', ''Generated query is not valid SQL''),
                   (''generated_query'', generated),
                   (''sql_query'', clean_sql generated)],
           status_code = 400\<rparr> \<and>
        (\<forall>sql out. DbRun sql out \<notin> set (snd (handle_query env request)))"
    using c s by auto
  have 3: "likely_sql (clean_sql generated) \<longrightarrow>
        status_code (fst (handle_query env request)) \<noteq> 400 \<and>
        (\<exists>sql. DbRun sql (db_run env sql) \<in> set (snd (handle_query env request)))"
  proof
    assume l: "likely_sql (clean_sql generated)"
    with c have "status_code (fst (handle_query env request)) \<noteq> 400"
      by (auto dest!: describe_cases simp: unexpected_error_def success_response_def)
    moreover from c l
    have "\<exists>sql. DbRun sql (db_run env sql) \<in> set evs'"
      by fastforce
    with s have "\<exists>sql. DbRun sql (db_run env sql) \<in> set (snd (handle_query env request))"
      by auto
    ultimately show "status_code (fst (handle_query env request)) \<noteq> 400 \<and>
        (\<exists>sql. DbRun sql (db_run env sql) \<in> set (snd (handle_query env request)))"
      by blast
  qed
  have 4: "upper (first_token (clean_sql generated)) \<in> set [''SELECT'', ''SHOW'', ''DESCRIBE'']
        \<longrightarrow> likely_sql (clean_sql generated)"
    using first_token_likely_sql by blast
  from 1 2 3 4 show "(likely_sql (clean_sql generated) \<longleftrightarrow>
        (\<exists>k \<in> set [''SELECT'', ''SHOW'', ''DESCRIBE'']. \<exists>t. upper (clean_sql generated) = k @ t)) \<and>
     (\<not> likely_sql (clean_sql generated) \<longrightarrow>
        fst (handle_query env request) =
          \<lparr>body = [(''error'', ''Generated query is not valid SQL''),
                   (''generated_query'', generated),
                   (''sql_query'', clean_sql generated)],
           status_code = 400\<rparr> \<and>
        (\<forall>sql out. DbRun sql out \<notin> set (snd (handle_query env request)))) \<and>
     (likely_sql (clean_sql generated) \<longrightarrow>
        status_code (fst (handle_query env request)) \<noteq> 400 \<and>
        (\<exists>sql. DbRun sql (db_run env sql) \<in> set (snd (handle_query env request)))) \<and>
     (upper (first_token (clean_sql generated)) \<in> set [''SELECT'', ''SHOW'', ''DESCRIBE'']
        \<longrightarrow> likely_sql (clean_sql generated))"
    by blast
qed

theorem validation_is_a_prefix_test_witness:
  "\<not> likely_sql (clean_sql ''DROP TABLE vessels;'') \<and>
   fst (handle_query (env_answering ''DROP TABLE vessels;'') (prompt_request ''list all vessels'')) =
     \<lparr>body = [(''error'', ''Generated query is not valid SQL''),
              (''generated_query'', ''DROP TABLE vessels;''),
              (''sql_query'', clean_sql ''DROP TABLE vessels;'')],
      status_code = 400\<rparr> \<and>
   (\<forall>sql out. DbRun sql out \<notin> set (snd (handle_query (env_answering ''DROP TABLE vessels;'')
                                            (prompt_request ''list all vessels'')))) \<and>
   upper (first_token (clean_sql three_cradles)) \<in> set [''SELECT'', ''SHOW'', ''DESCRIBE''] \<and>
   status_code (fst (handle_query (env_answering three_cradles)
                       (prompt_request ''show top 3 cradles''))) \<noteq> 400"
proof -
  have g: "Generate \<lparr>gen_input = ''list all vessels'', gen_top_k = 1000,
                     gen_table_info = ''cradles(id, cradlename)'',
                     gen_question = ''list all vessels''\<rparr> (Inr ''DROP TABLE vessels;'')
             \<in> set (snd (handle_query (env_answering ''DROP TABLE vessels;'')
                           (prompt_request ''list all vessels'')))"
    by (simp add: run_rejected)
  have n: "\<not> likely_sql (clean_sql ''DROP TABLE vessels;'')"
    by code_simp
  have g': "Generate \<lparr>gen_input = ''show top 3 cradles'', gen_top_k = 3,
                      gen_table_info = ''cradles(id, cradlename)'',
                      gen_question = ''show top 3 cradles''\<rparr> (Inr three_cradles)
             \<in> set (snd (handle_query (env_answering three_cradles)
                           (prompt_request ''show top 3 cradles'')))"
    by (simp add: run_success)
  have t: "upper (first_token (clean_sql three_cradles)) \<in> set [''SELECT'', ''SHOW'', ''DESCRIBE'']"
    by code_simp
  from validation_is_a_prefix_test
         [where generated = "''DROP TABLE vessels;''"
            and env = "env_answering ''DROP TABLE vessels;''"
            and request = "prompt_request ''list all vessels''"] g n
  have 1: "fst (handle_query (env_answering ''DROP TABLE vessels;'')
                  (prompt_request ''list all vessels'')) =
     \<lparr>body = [(''error'', ''Generated query is not valid SQL''),
              (''generated_query'', ''DROP TABLE vessels;''),
              (''sql_query'', clean_sql ''DROP TABLE vessels;'')],
      status_code = 400\<rparr> \<and>
   (\<forall>sql out. DbRun sql out \<notin> set (snd (handle_query (env_answering ''DROP TABLE vessels;'')
                                            (prompt_request ''list all vessels''))))"
    by blast
  from validation_is_a_prefix_test
         [where generated = three_cradles and env = "env_answering three_cradles"
            and request = "prompt_request ''show top 3 cradles''"] g' t
  have 2: "status_code (fst (handle_query (env_answering three_cradles)
                       (prompt_request ''show top 3 cradles''))) \<noteq> 400"
    by blast
  from n 1 t 2 show ?thesis by blast
qed

text \<open>
  C1, as stated, fails: the first token of \<open>Selecting all vessels\<close>, uppercased, is
  \<open>SELECTING\<close>, none of the three words, yet the text passes the validation, is handed
  to the executor and the request is answered with 200.
\<close>

theorem first_token_counterexample:
  "upper (first_token (clean_sql ''Selecting all vessels'')) = ''SELECTING'' \<and>
   ''SELECTING'' \<notin> set [''SELECT'', ''SHOW'', ''DESCRIBE''] \<and>
   status_code (fst (handle_query (env_answering ''Selecting all vessels'')
                       (prompt_request ''list all vessels''))) = 200 \<and>
   DbRun ''Selecting all vessels'' (Inr ''[(1,), (2,), (3,)]'')
     \<in> set (snd (handle_query (env_answering ''Selecting all vessels'')
                   (prompt_request ''list all vessels'')))"
  by code_simp

text \<open>
  What app.py hands to the executor when the lowered question holds none of the limit
  keywords and the candidate passes the validation: the candidate after the one pass of
  the substitution. It is also the \<open>sql_query\<close> of the response, wherever the response
  has one. A candidate without a match is handed on unchanged; a candidate with a match
  gets shorter.
\<close>

lemma executed_statement_is_one_pass:
  "Generate args (Inr generated) \<in> set (snd (handle_query env request)) \<and>
   \<not> requests_limit (gen_input args) \<and> likely_sql (clean_sql generated) \<longrightarrow>
     DbRun (limit_sub (clean_sql generated)) (db_run env (limit_sub (clean_sql generated)))
       \<in> set (snd (handle_query env request)) \<and>
     (\<forall>sql out. DbRun sql out \<in> set (snd (handle_query env request))
        \<longrightarrow> sql = limit_sub (clean_sql generated)) \<and>
     (\<forall>v. map_of (body (fst (handle_query env request))) ''sql_query'' = Some v
        \<longrightarrow> v = limit_sub (clean_sql generated)) \<and>
     (\<not> has_limit_clause (clean_sql generated)
        \<longrightarrow> limit_sub (clean_sql generated) = clean_sql generated) \<and>
     (has_limit_clause (clean_sql generated)
        \<longrightarrow> length (limit_sub (clean_sql generated)) < length (clean_sql generated))"
proof
  assume a: "Generate args (Inr generated) \<in> set (snd (handle_query env request)) \<and>
   \<not> requests_limit (gen_input args) \<and> likely_sql (clean_sql generated)"
  then have g: "Generate args (Inr generated) \<in> set (snd (handle_query env request))"
    and n: "\<not> requests_limit (gen_input args)" and l: "likely_sql (clean_sql generated)"
    by simp_all
  define sql where "sql = limit_sub (clean_sql generated)"
  from handle_query_generated [OF g] obtain info evs'
    where x: "execute env (gen_input args) generated = (fst (handle_query env request), evs')"
      and s: "snd (handle_query env request) =
                GetTableInfo (Inr info) # Generate args (Inr generated) # evs'"
    by blast
  from execute_cases [OF x] l n
  have c: "(\<exists>e. db_run env sql = Inl e \<and> evs' = [DbRun sql (db_run env sql)] \<and>
              fst (handle_query env request) =
                \<lparr>body = [(''error'', ''Error executing query: '' @ message e),
                         (''generated_query'', generated), (''sql_query'', sql)],
                 status_code = 500\<rparr>) \<or>
           (\<exists>r evs''. db_run env sql = Inr r \<and> evs' = DbRun sql (db_run env sql) # evs'' \<and>
              describe env (gen_input args) generated sql r = (fst (handle_query env request), evs''))"
    unfolding sql_def by auto
  have 1: "DbRun sql (db_run env sql) \<in> set (snd (handle_query env request))"
    using c s by auto
  have 2: "\<forall>sql' out. DbRun sql' out \<in> set (snd (handle_query env request)) \<longrightarrow> sql' = sql"
    using c s by (auto dest!: describe_cases)
  have 3: "\<forall>v. map_of (body (fst (handle_query env request))) ''sql_query'' = Some v \<longrightarrow> v = sql"
    using c by (auto dest!: describe_cases simp: unexpected_error_def success_response_def)
  have 4: "\<not> has_limit_clause (clean_sql generated) \<longrightarrow> sql = clean_sql generated"
    unfolding sql_def using limit_sub_unchanged by blast
  have 5: "has_limit_clause (clean_sql generated) \<longrightarrow> length sql < length (clean_sql generated)"
    unfolding sql_def using limit_sub_shorter by blast
  from 1 2 3 4 5 show "DbRun (limit_sub (clean_sql generated)) (db_run env (limit_sub (clean_sql generated)))
       \<in> set (snd (handle_query env request)) \<and>
     (\<forall>sql out. DbRun sql out \<in> set (snd (handle_query env request))
        \<longrightarrow> sql = limit_sub (clean_sql generated)) \<and>
     (\<forall>v. map_of (body (fst (handle_query env request))) ''sql_query'' = Some v
        \<longrightarrow> v = limit_sub (clean_sql generated)) \<and>
     (\<not> has_limit_clause (clean_sql generated)
        \<longrightarrow> limit_sub (clean_sql generated) = clean_sql generated) \<and>
     (has_limit_clause (clean_sql generated)
        \<longrightarrow> length (limit_sub (clean_sql generated)) < length (clean_sql generated))"
    unfolding sql_def by blast
qed

lemma run_limit_removed:
  "handle_query (env_answering ''SELECT * FROM vessels LIMIT 1000'') (prompt_request ''list all vessels'') =
     (success_response ''list all vessels'' ''SELECT * FROM vessels LIMIT 1000''
        ''SELECT * FROM vessels'' ''[(1,), (2,), (3,)]'' ''Three cradles.'',
      [GetTableInfo (Inr ''cradles(id, cradlename)''),
       Generate \<lparr>gen_input = ''list all vessels'', gen_top_k = 1000,
                 gen_table_info = ''cradles(id, cradlename)'',
                 gen_question = ''list all vessels''\<rparr> (Inr ''SELECT * FROM vessels LIMIT 1000''),
       DbRun ''SELECT * FROM vessels'' (Inr ''[(1,), (2,), (3,)]''),
       Describe \<lparr>desc_sql_query = ''SELECT * FROM vessels'',
                 desc_query_results = ''[(1,), (2,), (3,)]'',
                 desc_original_question = ''list all vessels''\<rparr> (Inr ''Three cradles.'')])"
  by code_simp

text \<open>
  The pass deletes every match it finds, with the whitespace before it, in any case of
  the word and after any whitespace of \<open>\s\<close>.
\<close>

lemma limit_sub_examples:
  "limit_sub ''SELECT * FROM vessels LIMIT 1000'' = ''SELECT * FROM vessels''"
  "limit_sub ''SELECT 1 LIMIT 2 UNION SELECT 3 limit  4'' = ''SELECT 1 UNION SELECT 3''"
  "limit_sub ''SELECT 1 LIMIT 2 LIMIT 3'' = ''SELECT 1''"
  "limit_sub (''SELECT 1 LIMIT'' @ [CHR 0xA0] @ ''5'') = ''SELECT 1''"
  "limit_sub ''SELECT 1 LIMIT ALL'' = ''SELECT 1 LIMIT ALL''"
  by code_simp+

text \<open>
  C2. The question \<open>list all vessels\<close> holds no limit keyword and the backend answers
  \<open>SELECT * FROM vessels LIMIT LIMIT 5 5\<close>. The one pass deletes the match \<open>LIMIT 5\<close>
  with its leading blank and does not read the joined text again: the statement that
  app.py executes and returns as \<open>sql_query\<close> is \<open>SELECT * FROM vessels LIMIT 5\<close>,
  which has a LIMIT clause.
\<close>

theorem limit_clause_survives_one_pass:
  "\<not> requests_limit ''list all vessels'' \<and>
   DbRun ''SELECT * FROM vessels LIMIT 5'' (Inr ''[(1,), (2,), (3,)]'')
     \<in> set (snd (handle_query (env_answering ''SELECT * FROM vessels LIMIT LIMIT 5 5'')
                   (prompt_request ''list all vessels''))) \<and>
   map_of (body (fst (handle_query (env_answering ''SELECT * FROM vessels LIMIT LIMIT 5 5'')
                        (prompt_request ''list all vessels'')))) ''sql_query''
     = Some ''SELECT * FROM vessels LIMIT 5'' \<and>
   has_key (fst (handle_query (env_answering ''SELECT * FROM vessels LIMIT LIMIT 5 5'')
                   (prompt_request ''list all vessels''))) ''status'' \<and>
   has_limit_clause ''SELECT * FROM vessels LIMIT 5'' \<and>
   ''SELECT * FROM vessels LIMIT 5'' = ''SELECT * FROM vessels '' @ ''LIMIT'' @ '' '' @ ''5''"
  by code_simp

text \<open>
  C3. In main.py, a request whose generation call returned a string goes on to call
  the string that \<open>extract_sql\<close> returned, which raises \<open>TypeError\<close>: the response is
  the catch-all 500 with that message, and generation is the last call of the run.
  Every request with a \<open>prompt\<close> member gets the catch-all 500, and no request gets
  the success response.
\<close>

theorem ollama_pipeline_never_succeeds:
  "(Generate args (Inr generated) \<in> set (snd (handle_query_main env request)) \<longrightarrow>
      call_str (extract_sql generated) generated = Inl not_callable \<and>
      handle_query_main env request =
        (\<lparr>body = [(''error'', ''Unexpected error: 'str' object is not callable'')],
          status_code = 500\<rparr>,
         [GetTableInfo (Inr (gen_table_info args)), Generate args (Inr generated)])) \<and>
   (request = Inr (JObj kvs) \<and> map_of kvs ''prompt'' = Some v \<longrightarrow>
      (\<exists>e. fst (handle_query_main env request) =
              \<lparr>body = [(''error'', ''Unexpected error: '' @ message e)], status_code = 500\<rparr>)) \<and>
   \<not> has_key (fst (handle_query_main env request)) ''status''"
proof (intro conjI impI)
  obtain resp evs where h: "handle_query_main env request = (resp, evs)"
    by (cases "handle_query_main env request")
  note c = handle_query_main_cases [OF h]
  show "call_str (extract_sql generated) generated = Inl not_callable"
    by (simp add: call_str_def not_callable_def)
  show "\<not> has_key (fst (handle_query_main env request)) ''status''"
    using c h by (auto simp: has_key_def unexpected_error_def)
  assume "Generate args (Inr generated) \<in> set (snd (handle_query_main env request))"
  with c h show "handle_query_main env request =
      (\<lparr>body = [(''error'', ''Unexpected error: 'str' object is not callable'')],
        status_code = 500\<rparr>,
       [GetTableInfo (Inr (gen_table_info args)), Generate args (Inr generated)])"
    by (auto simp: unexpected_error_def not_callable_def)
next
  assume "request = Inr (JObj kvs) \<and> map_of kvs ''prompt'' = Some v"
  then show "\<exists>e. fst (handle_query_main env request) =
              \<lparr>body = [(''error'', ''Unexpected error: '' @ message e)], status_code = 500\<rparr>"
    using handle_query_main_with_prompt [of kvs v env]
    by (auto simp: unexpected_error_def)
qed

theorem ollama_pipeline_never_succeeds_witness:
  "Generate \<lparr>gen_input = ''show top 3 cradles'', gen_top_k = 3,
             gen_table_info = ''cradles(id, cradlename)'',
             gen_question = ''show top 3 cradles''\<rparr> (Inr three_cradles)
     \<in> set (snd (handle_query_main (env_answering three_cradles)
                   (prompt_request ''show top 3 cradles''))) \<and>
   prompt_request ''show top 3 cradles'' = Inr (JObj [(''prompt'', JStr ''show top 3 cradles'')]) \<and>
   map_of [(''prompt'', JStr ''show top 3 cradles'')] ''prompt'' = Some (JStr ''show top 3 cradles'') \<and>
   fst (handle_query_main (env_answering three_cradles) (prompt_request ''show top 3 cradles'')) =
     \<lparr>body = [(''error'', ''Unexpected error: 'str' object is not callable'')], status_code = 500\<rparr> \<and>
   \<not> has_key (fst (handle_query_main (env_answering three_cradles)
                     (prompt_request ''show top 3 cradles''))) ''status''"
proof -
  have g: "Generate \<lparr>gen_input = ''show top 3 cradles'', gen_top_k = 3,
             gen_table_info = ''cradles(id, cradlename)'',
             gen_question = ''show top 3 cradles''\<rparr> (Inr three_cradles)
     \<in> set (snd (handle_query_main (env_answering three_cradles)
                   (prompt_request ''show top 3 cradles'')))"
    by (simp add: run_main)
  have r: "prompt_request ''show top 3 cradles'' = Inr (JObj [(''prompt'', JStr ''show top 3 cradles'')])"
    by (simp add: prompt_request_def)
  have m: "map_of [(''prompt'', JStr ''show top 3 cradles'')] ''prompt'' = Some (JStr ''show top 3 cradles'')"
    by simp
  from ollama_pipeline_never_succeeds
         [of "\<lparr>gen_input = ''show top 3 cradles'', gen_top_k = 3,
               gen_table_info = ''cradles(id, cradlename)'',
               gen_question = ''show top 3 cradles''\<rparr>" three_cradles
             "env_answering three_cradles" "prompt_request ''show top 3 cradles''"
             "[(''prompt'', JStr ''show top 3 cradles'')]" "JStr ''show top 3 cradles''"] g r m
  show ?thesis by (simp add: has_key_def)
qed

lemma rstrip_semicolons_all:
  "rstrip_semicolons s = [] \<or> last (rstrip_semicolons s) \<noteq> CHR '';''"
proof (cases "dropWhile (\<lambda>c. c = CHR '';'') (rev s) = []")
  case True
  then show ?thesis by (simp add: rstrip_semicolons_def)
next
  case False
  from hd_dropWhile [OF False] False show ?thesis
    by (simp add: rstrip_semicolons_def last_rev)
qed

text \<open>Inside a fence app.py leaves a trailing semicolon where it is.\<close>

lemma fenced_semicolon_is_kept:
  "clean_sql ''```sql\<newline>SELECT 1;\<newline>```'' = ''SELECT 1;''"
  by code_simp

text \<open>
  C4, as amended, for app.py. The text holds an SQL fence exactly when the search for
  one succeeds. Then the leftmost fence that closes is taken: its interior stands
  between the opening marker and the next closing marker, with only whitespace on
  either side, no fence opens and closes further left, and the interior is trimmed and
  holds no fence marker; where it does not end with a semicolon, it is the result.
  Without a fence the result is the trimmed text, without a leading \<open>SQLQuery:\<close> and
  trimmed again, then without all of its trailing semicolons and trimmed once more.
\<close>

theorem extraction_of_the_candidate:
  "(fence_search g \<noteq> None \<longleftrightarrow> has_sql_fence g) \<and>
   (fence_search g = Some b \<longrightarrow>
      strip b = b \<and> \<not> contains b ''```'' \<and>
      (\<exists>pre ws ws' post. g = pre @ ''```sql'' @ ws @ b @ ws' @ ''```'' @ post \<and>
         (\<forall>x \<in> set ws. is_space x) \<and> (\<forall>x \<in> set ws'. is_space x) \<and>
         (\<forall>pre' mid' post'. length pre' < length pre
            \<longrightarrow> g \<noteq> pre' @ ''```sql'' @ mid' @ ''```'' @ post')) \<and>
      (b = [] \<or> last b \<noteq> CHR '';'' \<longrightarrow> clean_sql g = b)) \<and>
   (\<not> has_sql_fence g \<longrightarrow>
      clean_sql g =
        strip (rstrip_semicolons
                 (if startswith (strip g) ''SQLQuery:''
                  then strip (drop (length ''SQLQuery:'') (strip g))
                  else strip g)))"
proof (intro conjI impI)
  show "fence_search g \<noteq> None \<longleftrightarrow> has_sql_fence g"
    by (rule has_sql_fence_iff)
next
  assume f: "fence_search g = Some b"
  from fence_search_Some [OF f] obtain pre ws ws' post
    where d: "g = pre @ ''```sql'' @ ws @ b @ ws' @ ''```'' @ post"
      and w: "\<forall>x \<in> set ws. is_space x" "\<forall>x \<in> set ws'. is_space x"
      and l: "\<forall>pre' mid' post'. length pre' < length pre
                \<longrightarrow> g \<noteq> pre' @ ''```sql'' @ mid' @ ''```'' @ post'"
      and n: "\<not> contains b ''```''" and s: "strip b = b"
    by (elim exE conjE)
  from f s show "clean_sql g = b" by (simp add: clean_sql_def)
  from s show "strip b = b" .
  from n show "\<not> contains b ''```''" .
  from d w l show "\<exists>pre ws ws' post. g = pre @ ''```sql'' @ ws @ b @ ws' @ ''```'' @ post \<and>
         (\<forall>x \<in> set ws. is_space x) \<and> (\<forall>x \<in> set ws'. is_space x) \<and>
         (\<forall>pre' mid' post'. length pre' < length pre
            \<longrightarrow> g \<noteq> pre' @ ''```sql'' @ mid' @ ''```'' @ post')"
    by (intro exI conjI)
next
  assume "\<not> has_sql_fence g"
  then have "fence_search g = None"
    using has_sql_fence_iff [of g] by simp
  then show "clean_sql g =
        strip (rstrip_semicolons
                 (if startswith (strip g) ''SQLQuery:''
                  then strip (drop (length ''SQLQuery:'') (strip g))
                  else strip g))"
    by (simp add: clean_sql_def Let_def)
qed

theorem extraction_of_the_candidate_witness:
  "fence_search three_cradles = Some ''SELECT * FROM cradles LIMIT 3'' \<and>
   last ''SELECT * FROM cradles LIMIT 3'' \<noteq> CHR '';'' \<and>
   clean_sql three_cradles = ''SELECT * FROM cradles LIMIT 3'' \<and>
   \<not> contains ''SELECT * FROM cradles LIMIT 3'' ''```'' \<and>
   \<not> has_sql_fence ''  SQLQuery: SELECT 1 ;; '' \<and>
   clean_sql ''  SQLQuery: SELECT 1 ;; '' =
     strip (rstrip_semicolons
              (if startswith (strip ''  SQLQuery: SELECT 1 ;; '') ''SQLQuery:''
               then strip (drop (length ''SQLQuery:'') (strip ''  SQLQuery: SELECT 1 ;; ''))
               else strip ''  SQLQuery: SELECT 1 ;; ''))"
proof -
  have f: "fence_search three_cradles = Some ''SELECT * FROM cradles LIMIT 3''"
    by code_simp
  have e: "last ''SELECT * FROM cradles LIMIT 3'' \<noteq> CHR '';''"
    by simp
  have n: "fence_search ''  SQLQuery: SELECT 1 ;; '' = None"
    by code_simp
  from extraction_of_the_candidate [of three_cradles "''SELECT * FROM cradles LIMIT 3''"] f e
  have 1: "clean_sql three_cradles = ''SELECT * FROM cradles LIMIT 3'' \<and>
           \<not> contains ''SELECT * FROM cradles LIMIT 3'' ''```''"
    by blast
  from extraction_of_the_candidate [of "''  SQLQuery: SELECT 1 ;; ''"] n
  have 2: "\<not> has_sql_fence ''  SQLQuery: SELECT 1 ;; ''"
    by blast
  with extraction_of_the_candidate [of "''  SQLQuery: SELECT 1 ;; ''"]
  have 3: "clean_sql ''  SQLQuery: SELECT 1 ;; '' =
     strip (rstrip_semicolons
              (if startswith (strip ''  SQLQuery: SELECT 1 ;; '') ''SQLQuery:''
               then strip (drop (length ''SQLQuery:'') (strip ''  SQLQuery: SELECT 1 ;; ''))
               else strip ''  SQLQuery: SELECT 1 ;; ''))"
    by blast
  from f e 1 2 3 show ?thesis by blast
qed

lemma clean_sql_examples:
  "clean_sql ''  SQLQuery: SELECT 1 ;; '' = ''SELECT 1''"
  "clean_sql ''SELECT 1; ;'' = ''SELECT 1;''"
  "clean_sql ''```sql SELECT 1'' = ''```sql SELECT 1''"
  "clean_sql (CHR 0xA0 # ''SELECT 1'') = ''SELECT 1''"
  "clean_sql ''```sql a ``` ```sql b ```'' = ''a''"
  by code_simp+

text \<open>
  C4, as stated, fails: of the two trailing semicolons of \<open>SELECT 1;;\<close> app.py removes
  both, where the claim has a single one removed.
\<close>

theorem single_semicolon_counterexample:
  "clean_sql ''SELECT 1;;'' = ''SELECT 1'' \<and>
   claimed_extractor ''SELECT 1;;'' = ''SELECT 1;''"
  by code_simp





lemma decimal_value_examples:
  "decimal_value ''5'' = 5" "decimal_value ''1000'' = 1000" "decimal_value ''007'' = 7"
  by code_simp+

text \<open>Whitespace that is not ASCII separates the keyword from its integer as well.\<close>

lemma top_k_after_no_break_space:
  "extract_top_k 4300 (''top'' @ [CHR 0xA0] @ ''5'') = Inr (Some 5)"
  "top_k_main 4300 (''top'' @ [CHR 0xA0] @ ''5'') = Inr 5"
  by code_simp+

text \<open>The message of the refusal, for 4301 digits under the limit of 4300.\<close>

lemma int_limit_message:
  "py_int 4300 (replicate 4301 (CHR ''9'')) =
     Inl (Exn ValueError ''Exceeds the limit (4300 digits) for integer string conversion: value has 4301 digits; use sys.set_int_max_str_digits() to increase the limit'')"
  "py_int 4300 (replicate 4300 (CHR ''9'')) = Inr (decimal_value (replicate 4300 (CHR ''9'')))"
  "py_int 0 (replicate 4301 (CHR ''9'')) = Inr (decimal_value (replicate 4301 (CHR ''9'')))"
proof -
  have "str_nat 4300 = ''4300''" "str_nat 4301 = ''4301''"
    by code_simp+
  then show "py_int 4300 (replicate 4301 (CHR ''9'')) =
     Inl (Exn ValueError ''Exceeds the limit (4300 digits) for integer string conversion: value has 4301 digits; use sys.set_int_max_str_digits() to increase the limit'')"
    by (simp add: py_int_def)
  show "py_int 4300 (replicate 4300 (CHR ''9'')) = Inr (decimal_value (replicate 4300 (CHR ''9'')))"
    by (simp add: py_int_def)
  show "py_int 0 (replicate 4301 (CHR ''9'')) = Inr (decimal_value (replicate 4301 (CHR ''9'')))"
    by (simp add: py_int_def)
qed

text \<open>
  C6. When the description call raises, app.py has run the statement successfully
  before, and it answers with the success object: status \<open>success\<close>, the executor's
  results, and a description that is the placeholder followed by the error's message.
  (In main.py no request reaches the description call.)
\<close>

theorem description_failure_is_absorbed:
  "(Describe args (Inl e) \<in> set (snd (handle_query env request)) \<longrightarrow>
      result_description_chain_invoke env args = Inl e \<and>
      (\<exists>generated results.
         DbRun (desc_sql_query args) (Inr results) \<in> set (snd (handle_query env request)) \<and>
         fst (handle_query env request) =
           success_response (desc_original_question args) generated (desc_sql_query args)
             results (''Unable to generate description: '' @ message e))) \<and>
   Describe args out \<notin> set (snd (handle_query_main env request))"
proof (intro conjI impI)
  assume a: "Describe args (Inl e) \<in> set (snd (handle_query env request))"
  obtain resp evs where h: "handle_query env request = (resp, evs)"
    by (cases "handle_query env request")
  from handle_query_cases [OF h] a h obtain info gargs g evs'
    where s: "evs = GetTableInfo (Inr info) # Generate gargs (Inr g) # evs'"
      and x: "execute env (gen_input gargs) g = (resp, evs')"
    by auto
  from a h s have a': "Describe args (Inl e) \<in> set evs'" by simp
  from execute_cases [OF x] a' obtain sql r evs''
    where db: "evs' = DbRun sql (Inr r) # evs''"
      and d: "describe env (gen_input gargs) g sql r = (resp, evs'')"
    by auto
  from a' db have a'': "Describe args (Inl e) \<in> set evs''" by simp
  from describe_cases [OF d] a'' obtain s
    where ev: "evs'' = [Describe \<lparr>desc_sql_query = sql, desc_query_results = s,
                                  desc_original_question = gen_input gargs\<rparr>
                          (result_description_chain_invoke env
                             \<lparr>desc_sql_query = sql, desc_query_results = s,
                              desc_original_question = gen_input gargs\<rparr>)]"
      and rp: "resp = success_response (gen_input gargs) g sql r
                 (case result_description_chain_invoke env
                         \<lparr>desc_sql_query = sql, desc_query_results = s,
                          desc_original_question = gen_input gargs\<rparr> of
                    Inr content \<Rightarrow> content
                  | Inl e \<Rightarrow> ''Unable to generate description: '' @ message e)"
    by auto
  from a'' ev
  have ar: "args = \<lparr>desc_sql_query = sql, desc_query_results = s,
                        desc_original_question = gen_input gargs\<rparr>"
    and o: "result_description_chain_invoke env
              \<lparr>desc_sql_query = sql, desc_query_results = s,
               desc_original_question = gen_input gargs\<rparr> = Inl e"
    by simp_all
  from rp ar o
  have "result_description_chain_invoke env args = Inl e \<and> desc_sql_query args = sql \<and>
        resp = success_response (desc_original_question args) g sql r
                 (''Unable to generate description: '' @ message e)"
    by simp
  with h s db
  show "result_description_chain_invoke env args = Inl e" and
    "\<exists>generated results.
         DbRun (desc_sql_query args) (Inr results) \<in> set (snd (handle_query env request)) \<and>
         fst (handle_query env request) =
           success_response (desc_original_question args) generated (desc_sql_query args)
             results (''Unable to generate description: '' @ message e)"
    by auto
next
  show "Describe args out \<notin> set (snd (handle_query_main env request))"
    by (rule main_never_describes)
qed

theorem description_failure_is_absorbed_witness:
  "Describe \<lparr>desc_sql_query = ''SELECT * FROM cradles LIMIT 3'',
             desc_query_results = ''[(1,), (2,), (3,)]'',
             desc_original_question = ''show top 3 cradles''\<rparr>
     (Inl (Exn OtherError ''model not found''))
     \<in> set (snd (handle_query
                   (env_answering three_cradles
                      \<lparr>result_description_chain_invoke :=
                         \<lambda>args. Inl (Exn OtherError ''model not found'')\<rparr>)
                   (prompt_request ''show top 3 cradles''))) \<and>
   (\<exists>generated results.
      fst (handle_query
             (env_answering three_cradles
                \<lparr>result_description_chain_invoke :=
                   \<lambda>args. Inl (Exn OtherError ''model not found'')\<rparr>)
             (prompt_request ''show top 3 cradles'')) =
        success_response ''show top 3 cradles'' generated ''SELECT * FROM cradles LIMIT 3''
          results (''Unable to generate description: '' @ ''model not found''))"
proof -
  have a: "Describe \<lparr>desc_sql_query = ''SELECT * FROM cradles LIMIT 3'',
             desc_query_results = ''[(1,), (2,), (3,)]'',
             desc_original_question = ''show top 3 cradles''\<rparr>
     (Inl (Exn OtherError ''model not found''))
     \<in> set (snd (handle_query
                   (env_answering three_cradles
                      \<lparr>result_description_chain_invoke :=
                         \<lambda>args. Inl (Exn OtherError ''model not found'')\<rparr>)
                   (prompt_request ''show top 3 cradles'')))"
    by (simp add: run_description_fails)
  from description_failure_is_absorbed
         [of "\<lparr>desc_sql_query = ''SELECT * FROM cradles LIMIT 3'',
               desc_query_results = ''[(1,), (2,), (3,)]'',
               desc_original_question = ''show top 3 cradles''\<rparr>"
             "Exn OtherError ''model not found''"
             "env_answering three_cradles
                \<lparr>result_description_chain_invoke :=
                   \<lambda>args. Inl (Exn OtherError ''model not found'')\<rparr>"
             "prompt_request ''show top 3 cradles''" "Inr []"] a
  show ?thesis by auto
qed

text \<open>
  C7. When the executor raises on the statement it is given, app.py answers with
  status 500 and a body that carries the executor's message, the generated text and
  the statement that was run. (In main.py no request reaches the executor.)
\<close>

theorem execution_failure_echoes_both_queries:
  "(DbRun sql (Inl e) \<in> set (snd (handle_query env request)) \<longrightarrow>
      db_run env sql = Inl e \<and>
      (\<exists>args generated.
         Generate args (Inr generated) \<in> set (snd (handle_query env request)) \<and>
         fst (handle_query env request) =
           \<lparr>body = [(''error'', ''Error executing query: '' @ message e),
                    (''generated_query'', generated),
                    (''sql_query'', sql)],
            status_code = 500\<rparr>)) \<and>
   DbRun sql out \<notin> set (snd (handle_query_main env request))"
proof (intro conjI impI)
  assume a: "DbRun sql (Inl e) \<in> set (snd (handle_query env request))"
  from handle_query_executed [OF a] obtain args g
    where g: "Generate args (Inr g) \<in> set (snd (handle_query env request))" by blast
  from handle_query_generated [OF g] obtain info evs'
    where x: "execute env (gen_input args) g = (fst (handle_query env request), evs')"
      and s: "snd (handle_query env request) = GetTableInfo (Inr info) # Generate args (Inr g) # evs'"
    by blast
  from a s have a': "DbRun sql (Inl e) \<in> set evs'" by simp
  from execute_cases [OF x] a'
  have "db_run env sql = Inl e \<and>
        fst (handle_query env request) =
           \<lparr>body = [(''error'', ''Error executing query: '' @ message e),
                    (''generated_query'', g), (''sql_query'', sql)],
            status_code = 500\<rparr>"
    by (auto dest!: describe_cases)
  with g show "db_run env sql = Inl e" and
    "\<exists>args generated.
         Generate args (Inr generated) \<in> set (snd (handle_query env request)) \<and>
         fst (handle_query env request) =
           \<lparr>body = [(''error'', ''Error executing query: '' @ message e),
                    (''generated_query'', generated),
                    (''sql_query'', sql)],
            status_code = 500\<rparr>"
    by blast+
next
  show "DbRun sql out \<notin> set (snd (handle_query_main env request))"
    by (rule main_never_executes)
qed

theorem execution_failure_echoes_both_queries_witness:
  "DbRun ''SELECT * FROM cradles LIMIT 3'' (Inl (Exn OtherError ''relation does not exist''))
     \<in> set (snd (handle_query
                   (env_answering three_cradles
                      \<lparr>db_run := \<lambda>sql. Inl (Exn OtherError ''relation does not exist'')\<rparr>)
                   (prompt_request ''show top 3 cradles''))) \<and>
   (\<exists>args generated.
      Generate args (Inr generated)
        \<in> set (snd (handle_query
                      (env_answering three_cradles
                         \<lparr>db_run := \<lambda>sql. Inl (Exn OtherError ''relation does not exist'')\<rparr>)
                      (prompt_request ''show top 3 cradles''))) \<and>
      fst (handle_query
             (env_answering three_cradles
                \<lparr>db_run := \<lambda>sql. Inl (Exn OtherError ''relation does not exist'')\<rparr>)
             (prompt_request ''show top 3 cradles'')) =
        \<lparr>body = [(''error'', ''Error executing query: '' @ ''relation does not exist''),
                 (''generated_query'', generated),
                 (''sql_query'', ''SELECT * FROM cradles LIMIT 3'')],
         status_code = 500\<rparr>)"
proof -
  have a: "DbRun ''SELECT * FROM cradles LIMIT 3'' (Inl (Exn OtherError ''relation does not exist''))
     \<in> set (snd (handle_query
                   (env_answering three_cradles
                      \<lparr>db_run := \<lambda>sql. Inl (Exn OtherError ''relation does not exist'')\<rparr>)
                   (prompt_request ''show top 3 cradles'')))"
    by (simp add: run_execution_fails)
  from execution_failure_echoes_both_queries
         [of "''SELECT * FROM cradles LIMIT 3''" "Exn OtherError ''relation does not exist''"
             "env_answering three_cradles
                \<lparr>db_run := \<lambda>sql. Inl (Exn OtherError ''relation does not exist'')\<rparr>"
             "prompt_request ''show top 3 cradles''" "Inr []"] a
  show ?thesis by simp
qed





text \<open>
  Text that parses to a value that is no sequence is outside the executor's results.
  On such text the slice raises a \<open>TypeError\<close>, which the sampling step of app.py does
  not catch, while that of main.py takes every exception.
\<close>

lemma summarize_main_total:
  "slice5 v = Inl e \<Longrightarrow> literal_eval env r = Inr v \<Longrightarrow> r \<noteq> [] \<Longrightarrow>
     summarize env r = Inl e \<and> summarize_main env r = r"
  by (auto simp: summarize_main_def dest: summarize_not_a_sequence)

text \<open>
  C9. For every request, to either pipeline, the body of the response has a top-level
  \<open>status\<close> key or a top-level \<open>error\<close> key and never both: exactly one of the two
  shapes comes back.
\<close>

theorem response_has_exactly_one_shape:
  "has_key (fst (handle_query env request)) ''status''
     \<noteq> has_key (fst (handle_query env request)) ''error'' \<and>
   has_key (fst (handle_query_main env request)) ''status''
     \<noteq> has_key (fst (handle_query_main env request)) ''error''"
proof
  obtain resp evs where h: "handle_query env request = (resp, evs)"
    by (cases "handle_query env request")
  have d: "\<And>q g sql r resp evs. describe env q g sql r = (resp, evs) \<Longrightarrow>
             has_key resp ''status'' \<noteq> has_key resp ''error''"
    by (auto dest!: describe_cases
             simp: has_key_def unexpected_error_def success_response_def)
  have e: "\<And>q g resp evs. execute env q g = (resp, evs) \<Longrightarrow>
             has_key resp ''status'' \<noteq> has_key resp ''error''"
    by (auto dest!: execute_cases dest: d simp: has_key_def)
  have p: "\<And>q resp evs. pipeline env q = (resp, evs) \<Longrightarrow>
             has_key resp ''status'' \<noteq> has_key resp ''error''"
    by (auto simp: pipeline_def has_key_def unexpected_error_def Let_def
             split: sum.splits if_splits prod.splits dest: e)
  from h have "has_key resp ''status'' \<noteq> has_key resp ''error''"
    unfolding handle_query_def
    by (auto simp: has_key_def unexpected_error_def
             split: sum.splits if_splits json.splits bool.splits dest: p)
  with h show "has_key (fst (handle_query env request)) ''status''
                 \<noteq> has_key (fst (handle_query env request)) ''error''"
    by simp
next
  obtain resp evs where h: "handle_query_main env request = (resp, evs)"
    by (cases "handle_query_main env request")
  from handle_query_main_cases [OF h]
  have "has_key resp ''status'' \<noteq> has_key resp ''error''"
    by (auto simp: has_key_def unexpected_error_def)
  with h show "has_key (fst (handle_query_main env request)) ''status''
                 \<noteq> has_key (fst (handle_query_main env request)) ''error''"
    by simp
qed

theorem response_has_exactly_one_shape_witness:
  "has_key (fst (handle_query (env_answering three_cradles)
                   (prompt_request ''show top 3 cradles''))) ''status'' \<and>
   \<not> has_key (fst (handle_query (env_answering three_cradles)
                     (prompt_request ''show top 3 cradles''))) ''error'' \<and>
   \<not> has_key (fst (handle_query_main (env_answering three_cradles)
                     (prompt_request ''show top 3 cradles''))) ''status'' \<and>
   has_key (fst (handle_query_main (env_answering three_cradles)
                   (prompt_request ''show top 3 cradles''))) ''error''"
proof -
  have s: "has_key (fst (handle_query (env_answering three_cradles)
                           (prompt_request ''show top 3 cradles''))) ''status''"
    by (simp add: run_success has_key_def success_response_def)
  have e: "has_key (fst (handle_query_main (env_answering three_cradles)
                           (prompt_request ''show top 3 cradles''))) ''error''"
    by (simp add: run_main has_key_def)
  from s e response_has_exactly_one_shape
         [of "env_answering three_cradles" "prompt_request ''show top 3 cradles''"]
  show ?thesis by blast
qed

text \<open>
  C10. A body that parses to a number has no \<open>prompt\<close> member, yet app.py does not
  answer it with 400: the membership test of the guard raises, and the catch-all
  answers with 500. No collaborator is called.
\<close>

theorem number_body_gets_500:
  "handle_query env (Inr (JInt 5)) =
     (\<lparr>body = [(''error'', ''Unexpected error: argument of type 'int' is not iterable'')],
       status_code = 500\<rparr>, [])"
  by (simp add: handle_query_def unexpected_error_def)

end
